theory Spec2Isabelle
  imports Main
begin

section \<open>The sedge \<open>cli\<close> command (cli/cli.go)\<close>

text \<open>
  A shallow embedding of \<^verbatim>\<open>preRunCliCmd\<close> and \<^verbatim>\<open>runCliCmd\<close> of
  \<^verbatim>\<open>src/cli/cli.go\<close>, and of the environment template \<^verbatim>\<open>env_base.tmpl\<close> shown in
  \<^verbatim>\<open>src/unnamed/part_000\<close>.

  The package-level flag variables of cli.go are one record, passed in and returned
  updated. Every call that leaves cli.go (packages utils, configs, clients, generate, ui,
  the prompts and the container runtime) is answered by a record of collaborators: the
  value the call returned in this run. What a run does to the outside world is the list
  of events it returns.
\<close>

subsection \<open>Data\<close>

text \<open>The constants of cli.go, line 67.\<close>

definition execution :: string where "execution = ''execution''"
definition consensus :: string where "consensus = ''consensus''"
definition validator :: string where "validator = ''validator''"

text \<open>
  The errors cli.go builds itself carry the arguments of their format string (the format
  strings are constants of package configs); an error handed back by a collaborator is
  opaque.
\<close>

datatype error =
    RunClientsFlagAmbiguousError "string list"
  | RunClientsError string string
  | NetworkValidationFailedError error
  | UnknownNetworkError string
  | InvalidFeeRecipientError
  | TrackSyncError
  | External string

text \<open>The flag variables, lines 39 to 65.\<close>

record flags =
  executionName :: string
  executionImage :: string
  consensusName :: string
  consensusImage :: string
  validatorName :: string
  validatorImage :: string
  generationPath :: string
  checkpointSyncUrl :: string
  network :: string
  feeRecipient :: string
  jwtPath :: string
  graffiti :: string
  mevImage :: string
  install :: bool
  run :: bool
  y :: bool
  services :: "string list"
  fallbackEL :: "string list"
  elExtraFlags :: "string list"
  clExtraFlags :: "string list"
  vlExtraFlags :: "string list"
  mapAllPorts :: bool
  noMev :: bool
  noValidator :: bool
  loggingFlag :: string

text \<open>
  \<^verbatim>\<open>clients.Client\<close> and \<^verbatim>\<open>clients.Clients\<close>, with the fields cli.go reads and
  writes.
\<close>

record Client =
  Name :: string
  Image :: string
  Omited :: bool

record Clients =
  Execution :: Client
  Consensus :: Client
  Validator :: Client

text \<open>\<^verbatim>\<open>generate.GenerationData\<close>, as the literal of lines 246 to 264 fills it.\<close>

record GenerationData =
  ExecutionClient :: Client
  ConsensusClient :: Client
  ValidatorClient :: Client
  GenerationPath :: string
  Network :: string
  CheckpointSyncUrl :: string
  FeeRecipient :: string
  JWTSecretPath :: string
  Graffiti :: string
  FallbackELUrls :: "string list"
  ElExtraFlags :: "string list"
  ClExtraFlags :: "string list"
  VlExtraFlags :: "string list"
  MapAllPorts :: bool
  Mev :: bool
  MevImage :: string
  LoggingDriver :: string

text \<open>The fields of the generation result that cli.go reads.\<close>

record GenerationResults =
  EnvFilePath :: string
  DockerComposePath :: string
  ELPort :: string
  CLPort :: string

subsection \<open>The Sync Tracker's data\<close>

text \<open>
  Modelled from the spec: \<^verbatim>\<open>trackSync\<close> is called at line 317 of cli.go and its body is
  not among the sources. Section 4.4 of the specification gives its states and section 3
  its status record. \<open>track_state\<close> holds the three terminal states; the state
  \<^emph>\<open>polling\<close> is every call of the function \<open>poll\<close> below. The answer of one endpoint to
  one query is synced, still syncing, or a failed query.
\<close>

datatype query = ReportsSynced | ReportsSyncing | QueryFailed string

datatype track_state = Synced | TimedOut | Errored

record SyncStatus =
  executionSynced :: bool
  consensusSynced :: bool
  lastError :: "string option"

subsection \<open>Events\<close>

datatype level = Info | Warn

datatype msg =
    CustomImagesWarning
  | MapAllPortsWarning
  | CheckpointUrlUsedWarning string
  | CheckingDependencies string
  | DependenciesPending string
  | DependenciesOK
  | CreatedFile string
  | HappyStaking2
  | ValidatorTips
  | HappyStaking
  | SyncTimeoutWarning

datatype event =
    Log level msg
  | EvInstallDependencies "string list"
  | EvInstallOrShowInstructions "string list"
  | EvHandleJWTSecret
  | EvFeeRecipientPrompt
  | EvGenerateScripts GenerationData
  | EvCleanGenerated GenerationResults
  | EvPrintFileContent string
  | EvPreRunTeku
  | EvRunAndShowContainers "string list"
  | EvRunScriptOrExit
  | EvTrackSync track_state SyncStatus
  | EvRunValidatorOrExit

subsection \<open>Collaborators\<close>

text \<open>
  One field per call that leaves cli.go, holding what the call answers. \<open>'cm\<close> is the
  type of the clients map that \<^verbatim>\<open>c.Clients\<close> hands to \<^verbatim>\<open>validateClients\<close>.
  \<^verbatim>\<open>utils.CheckDependencies\<close> and the two installers are asked once per round of the loop
  of line 206, so they take the number of the round. \<^verbatim>\<open>handleJWTSecret\<close> and
  \<^verbatim>\<open>feeRecipientPrompt\<close> assign the variables \<^verbatim>\<open>jwtPath\<close> and \<^verbatim>\<open>feeRecipient\<close>: they
  answer the new value. The last four fields are the inputs of the Sync Tracker of
  section 4.4 of the specification: the answers of the two endpoints at each tick, the
  number of ticks that fit before the deadline, and whether the endpoint configuration is
  well formed.
\<close>

record 'cm env =
  SupportedNetworks :: "error + string list"
  IsAddress :: "string \<Rightarrow> bool"
  ValidateLoggingFlag :: "string \<Rightarrow> error option"
  GetLoggingDriver :: "string \<Rightarrow> string"
  RequireJWT :: "string \<Rightarrow> bool"
  ClientsOf :: "string \<Rightarrow> string list \<Rightarrow> 'cm \<times> error list"
  validateClients :: "flags \<Rightarrow> 'cm \<Rightarrow> error + Clients"
  GetDependencies :: "string list"
  CheckDependencies :: "nat \<Rightarrow> string list \<Rightarrow> string list"
  installDependencies :: "nat \<Rightarrow> string list \<Rightarrow> error option"
  installOrShowInstructions :: "nat \<Rightarrow> string list \<Rightarrow> error option"
  handleJWTSecret :: "flags \<Rightarrow> error + string"
  IsAbs :: "string \<Rightarrow> bool"
  Abs :: "string \<Rightarrow> error + string"
  feeRecipientPrompt :: "error + string"
  GenerateScripts :: "GenerationData \<Rightarrow> error + GenerationResults"
  CleanGenerated :: "GenerationResults \<Rightarrow> error option"
  preRunTeku :: "error option"
  runAndShowContainers :: "string list \<Rightarrow> error option"
  runScriptOrExit :: "error option"
  RunValidatorOrExit :: "error option"
  endpointsWellFormed :: "string \<Rightarrow> string \<Rightarrow> bool"
  querySyncExecution :: "nat \<Rightarrow> query"
  querySyncConsensus :: "nat \<Rightarrow> query"
  deadlineTicks :: nat

subsection \<open>Helpers of package utils and of the Go library\<close>

text \<open>
  Modelled from the spec: package utils is not among the sources. \<^verbatim>\<open>utils.Contains\<close>,
  \<^verbatim>\<open>utils.ContainsOnly\<close> and \<^verbatim>\<open>utils.Filter\<close> are taken by their names and their use in
  lines 109 to 133: membership of a string in a slice, every element of a slice being one
  of the targets, and the elements of a slice that satisfy a predicate, in order.
\<close>

definition Contains :: "string list \<Rightarrow> string \<Rightarrow> bool" where
  "Contains list str = (str \<in> set list)"

definition ContainsOnly :: "string list \<Rightarrow> string list \<Rightarrow> bool" where
  "ContainsOnly list target = list_all (Contains target) list"

definition Filter :: "string list \<Rightarrow> (string \<Rightarrow> bool) \<Rightarrow> string list" where
  "Filter list f = filter f list"

text \<open>
  \<^verbatim>\<open>strings.Join\<close>, and \<^verbatim>\<open>strings.Split\<close> at a separator of one character (cli.go splits
  at a colon only): the pieces between the separators, a single piece when there is none.
\<close>

fun Join :: "string list \<Rightarrow> string \<Rightarrow> string" where
  "Join [] sep = []"
| "Join [s] sep = s"
| "Join (s # t # ss) sep = s @ sep @ Join (t # ss) sep"

fun Split :: "string \<Rightarrow> char \<Rightarrow> string list" where
  "Split [] sep = [[]]"
| "Split (c # cs) sep =
     (if c = sep then [] # Split cs sep
      else (case Split cs sep of [] \<Rightarrow> [[c]] | p # ps \<Rightarrow> (c # p) # ps))"

text \<open>\<^verbatim>\<open>filepath.IsAbs\<close> on Unix: the path begins with a slash.\<close>

definition unix_IsAbs :: "string \<Rightarrow> bool" where
  "unix_IsAbs path = (case path of [] \<Rightarrow> False | c # cs \<Rightarrow> c = CHR ''/'')"

subsection \<open>preRunCliCmd\<close>

text \<open>
  Lines 108 to 127, the run-clients flag: the new value of \<^verbatim>\<open>services\<close>, or the error
  returned.
\<close>

definition runClientsFlag :: "string list \<Rightarrow> error + string list" where
  "runClientsFlag svcs =
     (if Contains svcs ''all'' then
        (if length svcs = 1 then Inr [execution, consensus, validator]
         else Inl (RunClientsFlagAmbiguousError svcs))
      else if Contains svcs ''none'' then
        (if length svcs = 1 then Inr []
         else Inl (RunClientsFlagAmbiguousError svcs))
      else if \<not> ContainsOnly svcs [execution, consensus, validator] then
        Inl (RunClientsError (Join svcs '','') (Join [execution, consensus, validator] '',''))
      else Inr svcs)"

text \<open>Lines 128 to 133: the validator leaves \<^verbatim>\<open>services\<close> under \<^verbatim>\<open>--no-validator\<close>.\<close>

definition excludeValidator :: "flags \<Rightarrow> flags" where
  "excludeValidator f =
     (if noValidator f \<and> Contains (services f) validator
      then f\<lparr>services := Filter (services f) (\<lambda>s. s \<noteq> validator)\<rparr>
      else f)"

text \<open>
  Lines 149 to 164: a client given as \<^verbatim>\<open>name:image\<close> is taken apart.
  \<^verbatim>\<open>strings.Split\<close> returns at least one piece, so the index 0 of lines 152, 157 and
  162 is always in range.
\<close>

definition customImages :: "flags \<Rightarrow> flags" where
  "customImages f0 =
     (let f1 = (if executionName f0 \<noteq> [] then
                  (let executionParts = Split (executionName f0) (CHR '':'') in
                   f0\<lparr>executionName := hd executionParts,
                      executionImage := Join (tl executionParts) '':''\<rparr>)
                else f0);
          f2 = (if consensusName f1 \<noteq> [] then
                  (let consensusParts = Split (consensusName f1) (CHR '':'') in
                   f1\<lparr>consensusName := hd consensusParts,
                      consensusImage := Join (tl consensusParts) '':''\<rparr>)
                else f1)
      in (if validatorName f2 \<noteq> [] then
            (let validatorParts = Split (validatorName f2) (CHR '':'') in
             f2\<lparr>validatorName := hd validatorParts,
                validatorImage := Join (tl validatorParts) '':''\<rparr>)
          else f2))"

text \<open>Lines 103 to 106: \<^verbatim>\<open>--yes\<close> stands for \<^verbatim>\<open>--install\<close> and \<^verbatim>\<open>--run\<close>.\<close>

definition quickRun :: "flags \<Rightarrow> flags" where
  "quickRun f = (if y f then f\<lparr>install := True, run := True\<rparr> else f)"

text \<open>
  Lines 102 to 171. The result is the error returned (\<open>None\<close> for \<^verbatim>\<open>nil\<close>) and the flag
  variables as the function leaves them.
\<close>

definition preRunCliCmd :: "'cm env \<Rightarrow> flags \<Rightarrow> error option \<times> flags" where
  "preRunCliCmd env f0 =
     (let f1 = quickRun f0 in
      case runClientsFlag (services f1) of
        Inl err \<Rightarrow> (Some err, f1)
      | Inr svcs \<Rightarrow>
          (let f2 = excludeValidator (f1\<lparr>services := svcs\<rparr>) in
           case SupportedNetworks env of
             Inl err \<Rightarrow> (Some (NetworkValidationFailedError err), f2)
           | Inr networks \<Rightarrow>
               if \<not> Contains networks (network f2) then
                 (Some (UnknownNetworkError (network f2)), f2)
               else if feeRecipient f2 \<noteq> [] \<and> \<not> IsAddress env (feeRecipient f2) then
                 (Some InvalidFeeRecipientError, f2)
               else
                 (let f3 = customImages f2 in
                  case ValidateLoggingFlag env (loggingFlag f3) of
                    Some err \<Rightarrow> (Some err, f3)
                  | None \<Rightarrow> (None, f3))))"

subsection \<open>The Sync Tracker\<close>

text \<open>
  Modelled from the spec: the body of \<^verbatim>\<open>trackSync\<close> is not among the sources; this is
  the state machine of section 4.4 of the specification. One tick asks each endpoint that
  has not yet reported synced (an endpoint that did is not asked again); a failed query is
  recorded and ends nothing. Polling ends in \<open>Synced\<close> at the first tick after which both
  endpoints have reported synced, and in \<open>TimedOut\<close> when the ticks before the deadline
  are used up. A malformed endpoint configuration ends in \<open>Errored\<close> before any tick.
\<close>

definition askExecution :: "'cm env \<Rightarrow> nat \<Rightarrow> SyncStatus \<Rightarrow> SyncStatus" where
  "askExecution env i st =
     (if executionSynced st then st
      else (case querySyncExecution env i of
              ReportsSynced \<Rightarrow> st\<lparr>executionSynced := True\<rparr>
            | ReportsSyncing \<Rightarrow> st
            | QueryFailed e \<Rightarrow> st\<lparr>lastError := Some e\<rparr>))"

definition askConsensus :: "'cm env \<Rightarrow> nat \<Rightarrow> SyncStatus \<Rightarrow> SyncStatus" where
  "askConsensus env i st =
     (if consensusSynced st then st
      else (case querySyncConsensus env i of
              ReportsSynced \<Rightarrow> st\<lparr>consensusSynced := True\<rparr>
            | ReportsSyncing \<Rightarrow> st
            | QueryFailed e \<Rightarrow> st\<lparr>lastError := Some e\<rparr>))"

fun poll :: "'cm env \<Rightarrow> nat \<Rightarrow> nat \<Rightarrow> SyncStatus \<Rightarrow> track_state \<times> SyncStatus" where
  "poll env 0 i st = (TimedOut, st)"
| "poll env (Suc ticks) i st =
     (let st' = askConsensus env i (askExecution env i st) in
      if executionSynced st' \<and> consensusSynced st' then (Synced, st')
      else poll env ticks (Suc i) st')"

definition syncTracker :: "'cm env \<Rightarrow> string \<Rightarrow> string \<Rightarrow> track_state \<times> SyncStatus" where
  "syncTracker env elPort clPort =
     (let st0 = \<lparr>executionSynced = False, consensusSynced = False, lastError = None\<rparr> in
      if \<not> endpointsWellFormed env elPort clPort then (Errored, st0)
      else poll env (deadlineTicks env) 0 st0)"

text \<open>
  Modelled from the spec: what \<^verbatim>\<open>trackSync\<close> hands to line 317. A timeout is a warning
  and no error (sections 4.4 and 7); only the errored state is an error.
\<close>

definition trackSync :: "'cm env \<Rightarrow> string \<Rightarrow> string \<Rightarrow> error option \<times> event list" where
  "trackSync env elPort clPort =
     (case syncTracker env elPort clPort of
        (Synced, st) \<Rightarrow> (None, [EvTrackSync Synced st])
      | (TimedOut, st) \<Rightarrow> (None, [EvTrackSync TimedOut st, Log Warn SyncTimeoutWarning])
      | (Errored, st) \<Rightarrow> (Some TrackSyncError, [EvTrackSync Errored st]))"

subsection \<open>runCliCmd\<close>

text \<open>
  A run's result is the slice of errors returned (empty for \<^verbatim>\<open>nil\<close>) and the events
  in the order they happened. \<open>emit\<close> puts events in front of what follows them;
  \<open>failed\<close> is \<^verbatim>\<open>return []error{err}\<close>.
\<close>

type_synonym result = "error list \<times> event list"

definition emit :: "event list \<Rightarrow> result \<Rightarrow> result" where
  "emit evs r = (fst r, evs @ snd r)"

definition failed :: "error \<Rightarrow> result" where
  "failed err = ([err], [])"

text \<open>Lines 307 to 336: the validator is started once both nodes are synced.\<close>

definition startValidator :: "'cm env \<Rightarrow> flags \<Rightarrow> GenerationResults \<Rightarrow> result" where
  "startValidator env f results =
     (if \<not> noValidator f then
        emit [Log Info ValidatorTips]
          (if \<not> Contains (services f) validator then
             (case trackSync env (ELPort results) (CLPort results) of
                (Some err, tr) \<Rightarrow> emit tr (failed err)
              | (None, tr) \<Rightarrow>
                  emit tr
                    (if run f then
                       emit [EvRunAndShowContainers [validator]]
                         (case runAndShowContainers env [validator] of
                            Some err \<Rightarrow> failed err
                          | None \<Rightarrow> ([], [Log Info HappyStaking]))
                     else
                       emit [EvRunValidatorOrExit]
                         (case RunValidatorOrExit env of
                            Some err \<Rightarrow> failed err
                          | None \<Rightarrow> ([], [Log Info HappyStaking]))))
           else ([], [Log Info HappyStaking]))
      else ([], []))"

text \<open>Lines 283 to 305: nothing is run for an empty \<^verbatim>\<open>services\<close>.\<close>

definition startServices :: "'cm env \<Rightarrow> flags \<Rightarrow> Clients \<Rightarrow> GenerationResults \<Rightarrow> result" where
  "startServices env f combinedClients results =
     (if length (services f) = 0 then ([], [Log Info HappyStaking2])
      else
        (case (if Name (Consensus combinedClients) = ''teku''
               then (preRunTeku env, [EvPreRunTeku]) else (None, [])) of
           (Some err, tr) \<Rightarrow> emit tr (failed err)
         | (None, tr) \<Rightarrow>
             emit tr
               (if run f then
                  emit [EvRunAndShowContainers (services f)]
                    (case runAndShowContainers env (services f) of
                       Some err \<Rightarrow> failed err
                     | None \<Rightarrow> startValidator env f results)
                else
                  emit [EvRunScriptOrExit]
                    (case runScriptOrExit env of
                       Some err \<Rightarrow> failed err
                     | None \<Rightarrow> startValidator env f results))))"

text \<open>Lines 240 to 264: the selection and the generation data.\<close>

definition selection :: "flags \<Rightarrow> Clients \<Rightarrow> Clients" where
  "selection f combinedClients =
     combinedClients
       \<lparr>Execution := (Execution combinedClients)\<lparr>Image := executionImage f\<rparr>,
        Consensus := (Consensus combinedClients)\<lparr>Image := consensusImage f\<rparr>,
        Validator := (Validator combinedClients)
                       \<lparr>Image := validatorImage f, Omited := noValidator f\<rparr>\<rparr>"

definition generationData :: "'cm env \<Rightarrow> flags \<Rightarrow> Clients \<Rightarrow> GenerationData" where
  "generationData env f combinedClients =
     \<lparr>ExecutionClient = Execution combinedClients,
      ConsensusClient = Consensus combinedClients,
      ValidatorClient = Validator combinedClients,
      GenerationPath = generationPath f,
      Network = network f,
      CheckpointSyncUrl = checkpointSyncUrl f,
      FeeRecipient = feeRecipient f,
      JWTSecretPath = jwtPath f,
      Graffiti = graffiti f,
      FallbackELUrls = fallbackEL f,
      ElExtraFlags = elExtraFlags f,
      ClExtraFlags = clExtraFlags f,
      VlExtraFlags = vlExtraFlags f,
      MapAllPorts = mapAllPorts f,
      Mev = (\<not> noMev f \<and> \<not> noValidator f),
      MevImage = mevImage f,
      LoggingDriver = GetLoggingDriver env (loggingFlag f)\<rparr>"

text \<open>Lines 240 to 281, and on to the services.\<close>

definition generateScripts :: "'cm env \<Rightarrow> flags \<Rightarrow> Clients \<Rightarrow> result" where
  "generateScripts env f combinedClients0 =
     (let combinedClients = selection f combinedClients0;
          gd = generationData env f combinedClients in
      emit [EvGenerateScripts gd]
        (case GenerateScripts env gd of
           Inl err \<Rightarrow> failed err
         | Inr results \<Rightarrow>
             emit [EvCleanGenerated results]
               (case CleanGenerated env results of
                  Some err \<Rightarrow> failed err
                | None \<Rightarrow>
                    emit [Log Info (CreatedFile (EnvFilePath results)),
                          EvPrintFileContent (EnvFilePath results),
                          Log Info (CreatedFile (DockerComposePath results)),
                          EvPrintFileContent (DockerComposePath results)]
                      (startServices env f combinedClients results))))"

text \<open>
  Lines 222 to 231: the JWT secret. The result is the flag variables with the new
  \<^verbatim>\<open>jwtPath\<close>, or the error returned.
\<close>

definition jwtSecret :: "'cm env \<Rightarrow> flags \<Rightarrow> (error + flags) \<times> event list" where
  "jwtSecret env f =
     (if jwtPath f = [] \<and> RequireJWT env (network f) then
        (case handleJWTSecret env f of
           Inl err \<Rightarrow> (Inl err, [EvHandleJWTSecret])
         | Inr p \<Rightarrow> (Inr (f\<lparr>jwtPath := p\<rparr>), [EvHandleJWTSecret]))
      else if IsAbs env (jwtPath f) then
        (case Abs env (jwtPath f) of
           Inl err \<Rightarrow> (Inl err, [])
         | Inr p \<Rightarrow> (Inr (f\<lparr>jwtPath := p\<rparr>), []))
      else (Inr f, []))"

text \<open>Lines 233 to 238: the fee recipient is asked for unless \<^verbatim>\<open>--yes\<close> or one is given.\<close>

definition feeRecipientStep :: "'cm env \<Rightarrow> flags \<Rightarrow> (error + flags) \<times> event list" where
  "feeRecipientStep env f =
     (if \<not> y f \<and> feeRecipient f = [] then
        (case feeRecipientPrompt env of
           Inl err \<Rightarrow> (Inl err, [EvFeeRecipientPrompt])
         | Inr a \<Rightarrow> (Inr (f\<lparr>feeRecipient := a\<rparr>), [EvFeeRecipientPrompt]))
      else (Inr f, []))"

text \<open>Lines 222 to 281, and on.\<close>

definition prepareAndGenerate :: "'cm env \<Rightarrow> flags \<Rightarrow> Clients \<Rightarrow> result" where
  "prepareAndGenerate env f combinedClients =
     (case jwtSecret env f of
        (Inl err, tr) \<Rightarrow> emit tr (failed err)
      | (Inr f1, tr) \<Rightarrow>
          emit tr
            (case feeRecipientStep env f1 of
               (Inl err, tr') \<Rightarrow> emit tr' (failed err)
             | (Inr f2, tr') \<Rightarrow> emit tr' (generateScripts env f2 combinedClients)))"

text \<open>
  Lines 205 to 219: the loop runs until no dependency is pending, and nothing bounds it.
  \<open>fuel\<close> bounds the rounds: \<open>None\<close> is a loop still running after \<open>fuel\<close> rounds.
  \<open>i\<close> numbers the round.
\<close>

fun dependenciesLoop ::
  "'cm env \<Rightarrow> flags \<Rightarrow> nat \<Rightarrow> nat \<Rightarrow> (error option \<times> event list) option" where
  "dependenciesLoop env f 0 i = None"
| "dependenciesLoop env f (Suc fuel) i =
     (let pending = CheckDependencies env i (GetDependencies env) in
      if length pending > 0 then
        (if install f then
           (case installDependencies env i pending of
              Some err \<Rightarrow>
                Some (Some err, [Log Info (DependenciesPending (Join pending '', '')),
                                 EvInstallDependencies pending])
            | None \<Rightarrow>
                (case dependenciesLoop env f fuel (Suc i) of
                   None \<Rightarrow> None
                 | Some r \<Rightarrow>
                     Some (fst r, [Log Info (DependenciesPending (Join pending '', '')),
                                   EvInstallDependencies pending] @ snd r)))
         else
           (case installOrShowInstructions env i pending of
              Some err \<Rightarrow>
                Some (Some err, [Log Info (DependenciesPending (Join pending '', '')),
                                 EvInstallOrShowInstructions pending])
            | None \<Rightarrow>
                (case dependenciesLoop env f fuel (Suc i) of
                   None \<Rightarrow> None
                 | Some r \<Rightarrow>
                     Some (fst r, [Log Info (DependenciesPending (Join pending '', '')),
                                   EvInstallOrShowInstructions pending] @ snd r))))
      else Some (None, []))"

text \<open>Lines 174 to 187: the warnings.\<close>

definition warnings :: "flags \<Rightarrow> event list" where
  "warnings f =
     (if executionImage f \<noteq> [] \<or> consensusImage f \<noteq> [] \<or> validatorImage f \<noteq> []
      then [Log Warn CustomImagesWarning] else []) @
     (if mapAllPorts f then [Log Warn MapAllPortsWarning] else []) @
     (if checkpointSyncUrl f \<noteq> []
      then [Log Warn (CheckpointUrlUsedWarning (checkpointSyncUrl f))] else [])"

text \<open>Lines 173 to 337. \<open>None\<close>: the dependency loop did not end within \<open>fuel\<close> rounds.\<close>

definition runCliCmd :: "nat \<Rightarrow> 'cm env \<Rightarrow> flags \<Rightarrow> result option" where
  "runCliCmd fuel env f =
     (case ClientsOf env (network f) [execution, consensus, validator] of
        (clientsMap, errors) \<Rightarrow>
          if length errors > 0 then Some (errors, warnings f)
          else
            (case validateClients env f clientsMap of
               Inl err \<Rightarrow> Some (emit (warnings f) (failed err))
             | Inr combinedClients \<Rightarrow>
                 (case dependenciesLoop env f fuel 0 of
                    None \<Rightarrow> None
                  | Some (Some err, tr) \<Rightarrow>
                      Some (emit (warnings f @
                                  [Log Info (CheckingDependencies
                                               (Join (GetDependencies env) '', ''))] @ tr)
                              (failed err))
                  | Some (None, tr) \<Rightarrow>
                      Some (emit (warnings f @
                                  [Log Info (CheckingDependencies
                                               (Join (GetDependencies env) '', ''))] @ tr @
                                  [Log Info DependenciesOK])
                              (prepareAndGenerate env f combinedClients)))))"

subsection \<open>The command\<close>

text \<open>
  Lines 72 to 100: \<^verbatim>\<open>PreRun\<close> ends the process with \<^verbatim>\<open>log.Fatal\<close> when
  \<^verbatim>\<open>preRunCliCmd\<close> returns an error, and \<^verbatim>\<open>Run\<close> is then never entered; \<^verbatim>\<open>Run\<close> ends it
  with status 1 when \<^verbatim>\<open>runCliCmd\<close> returns errors.
\<close>

datatype outcome = PreRunFatal error | RunErrors "error list" | RunOK

definition CliCmd :: "nat \<Rightarrow> 'cm env \<Rightarrow> flags \<Rightarrow> (outcome \<times> event list) option" where
  "CliCmd fuel env f =
     (case preRunCliCmd env f of
        (Some err, f') \<Rightarrow> Some (PreRunFatal err, [])
      | (None, f') \<Rightarrow>
          (case runCliCmd fuel env f' of
             None \<Rightarrow> None
           | Some r \<Rightarrow> Some (if length (fst r) > 0 then RunErrors (fst r) else RunOK, snd r)))"

section \<open>The environment template (templates/envs/goerli/env_base.tmpl)\<close>

text \<open>
  The template \<^verbatim>\<open>env\<close> as \<^verbatim>\<open>src/unnamed/part_000\<close> shows it, lines 19 to 27. The data it
  is executed on has the fields \<^verbatim>\<open>.Mev\<close> and \<^verbatim>\<open>.RelayURL\<close>; the templates
  \<^verbatim>\<open>execution\<close>, \<^verbatim>\<open>consensus\<close> and \<^verbatim>\<open>validator\<close> it calls on the same data are
  parameters. An \<^verbatim>\<open>if\<close> of the template language holds for a string that is not empty.
\<close>

definition NL :: char where "NL = CHR 0x0A"

record EnvData =
  dotMev :: bool
  dotRelayURL :: string

definition goerliRelayURL :: string where
  "goerliRelayURL = ''https://0xafa4c6985aa049fb79dd37010438cfebeb0f2bd42b115b89dd678dab0670c1de38da0c4e9138c9290a398ecd9a0b3110@builder-relay-goerli.flashbots.net''"

definition env_base_tmpl ::
  "(EnvData \<Rightarrow> string) \<Rightarrow> (EnvData \<Rightarrow> string) \<Rightarrow> (EnvData \<Rightarrow> string) \<Rightarrow> EnvData \<Rightarrow> string" where
  "env_base_tmpl executionT consensusT validatorT d =
     NL # ''# --- Global configuration ---'' @
     NL # ''NETWORK=goerli'' @
     (if dotMev d then
        NL # ''RELAY_URL='' @ (if dotRelayURL d \<noteq> [] then dotRelayURL d else goerliRelayURL)
      else []) @
     NL # executionT d @
     NL # consensusT d @
     NL # validatorT d @
     [NL]"

text \<open>
  Modelled from the spec: the Network Registry (package configs) is not among the
  sources. Section 3 of the specification gives every network an ordered list
  \<^verbatim>\<open>defaultRelayURLs\<close>. For goerli the list is the one that the run shown in
  \<^verbatim>\<open>src/unnamed/part_000\<close> prints as the default values (lines 108 to 112), in that
  order.
\<close>

definition goerliDefaultRelayURLs :: "string list" where
  "goerliDefaultRelayURLs =
     [''https://0xafa4c6985aa049fb79dd37010438cfebeb0f2bd42b115b89dd678dab0670c1de38da0c4e9138c9290a398ecd9a0b3110@builder-relay-goerli.flashbots.net'',
      ''https://0x821f2a65afb70e7f2e820a925a9b4c80a159620582c1766b1b09729fec178b11ea22abb3a51f07b288be815a1a2ff516@bloxroute.max-profit.builder.goerli.blxrbdn.com'',
      ''https://0x8f7b17a74569b7a57e9bdafd2e159380759f5dc3ccbd4bf600414147e8c4e1dc6ebada83c0139ac15850eb6c975e82d0@builder-relay-goerli.blocknative.com'',
      ''https://0xb1d229d9c21298a87846c7022ebeef277dfc321fe674fa45312e20b5b6c400bfde9383f801848d7837ed5fc449083a12@relay-goerli.edennetwork.io'',
      ''https://0xb1559beef7b5ba3127485bbbb090362d9f497ba64e177ee2c8e7db74746306efad687f2cf8574e38d70067d40ef136dc@relay-stag.ultrasound.money'']"

text \<open>
  The environment document is one \<^verbatim>\<open>KEY=VALUE\<close> per line: its lines, whether a variable
  is set in it, the values that its lines give to a variable, in order, and the value the
  variable has. A later entry overrides an earlier one (section 4.2 of the specification),
  so the value is that of the last line that sets the variable.
\<close>

definition HasPrefix :: "string \<Rightarrow> string \<Rightarrow> bool" where
  "HasPrefix s p = (take (length p) s = p)"

definition setsVar :: "string \<Rightarrow> string \<Rightarrow> bool" where
  "setsVar key l = HasPrefix l (key @ ''='')"

definition hasVar :: "string \<Rightarrow> string \<Rightarrow> bool" where
  "hasVar key doc = list_ex (setsVar key) (Split doc NL)"

definition varValues :: "string \<Rightarrow> string \<Rightarrow> string list" where
  "varValues key doc = map (drop (length key + 1)) (filter (setsVar key) (Split doc NL))"

definition lookupVar :: "string \<Rightarrow> string \<Rightarrow> string option" where
  "lookupVar key doc =
     (case rev (varValues key doc) of
        [] \<Rightarrow> None
      | v # vs \<Rightarrow> Some v)"

section \<open>The cleanup pass\<close>

text \<open>
  Modelled from the spec: \<^verbatim>\<open>generate.CleanGenerated\<close> is called at line 271 of cli.go
  and its body is not among the sources. Section 4.3 of the specification: the pass removes
  the lines of the form \<^verbatim>\<open>KEY=\<close> (a key, the equals sign, and no value), then collapses
  consecutive blank lines to one, and does the same to both documents.
\<close>

definition emptyAssignment :: "string \<Rightarrow> bool" where
  "emptyAssignment l =
     (case rev l of
        [] \<Rightarrow> False
      | c # k \<Rightarrow> c = CHR ''='' \<and> k \<noteq> [] \<and> CHR ''='' \<notin> set k)"

definition removeEmptyVars :: "string list \<Rightarrow> string list" where
  "removeEmptyVars ls = filter (\<lambda>l. \<not> emptyAssignment l) ls"

fun collapseBlank :: "string list \<Rightarrow> string list" where
  "collapseBlank (a # b # ls) =
     (if a = [] \<and> b = [] then collapseBlank (b # ls) else a # collapseBlank (b # ls))"
| "collapseBlank ls = ls"

definition cleanup :: "string \<Rightarrow> string" where
  "cleanup doc = Join (collapseBlank (removeEmptyVars (Split doc NL))) [NL]"

definition cleanGenerated :: "string \<times> string \<Rightarrow> string \<times> string" where
  "cleanGenerated docs = (cleanup (fst docs), cleanup (snd docs))"

section \<open>Kinds of events\<close>

text \<open>
  The events of lines 173 to 238, before the scripts are generated: log lines, the
  installation of dependencies, the JWT secret and the prompt for the fee recipient.
\<close>

fun preparation :: "event \<Rightarrow> bool" where
  "preparation (Log l m) = True"
| "preparation (EvInstallDependencies ds) = True"
| "preparation (EvInstallOrShowInstructions ds) = True"
| "preparation EvHandleJWTSecret = True"
| "preparation EvFeeRecipientPrompt = True"
| "preparation ev = False"

text \<open>The events that start containers, or offer to.\<close>

fun startsContainers :: "event \<Rightarrow> bool" where
  "startsContainers (EvRunAndShowContainers ss) = True"
| "startsContainers EvRunScriptOrExit = True"
| "startsContainers EvRunValidatorOrExit = True"
| "startsContainers ev = False"

section \<open>A run to try the command on\<close>

text \<open>
  The flags as \<^verbatim>\<open>init\<close> registers them (lines 339 to 385), for a generation path;
  and collaborators that all succeed: three networks, an address check by length and
  prefix, Unix paths, no dependency pending, and endpoints that report synced at once.
\<close>

definition defaultFlags :: "string \<Rightarrow> flags" where
  "defaultFlags path =
     \<lparr>executionName = [], executionImage = [], consensusName = [], consensusImage = [],
      validatorName = [], validatorImage = [], generationPath = path,
      checkpointSyncUrl = [], network = ''mainnet'', feeRecipient = [], jwtPath = [],
      graffiti = [], mevImage = [], install = False, run = False, y = False,
      services = [execution, consensus], fallbackEL = [], elExtraFlags = [],
      clExtraFlags = [], vlExtraFlags = [], mapAllPorts = False, noMev = False,
      noValidator = False, loggingFlag = ''json''\<rparr>"

definition someClients :: Clients where
  "someClients =
     \<lparr>Execution = \<lparr>Name = ''nethermind'', Image = [], Omited = False\<rparr>,
      Consensus = \<lparr>Name = ''prysm'', Image = [], Omited = False\<rparr>,
      Validator = \<lparr>Name = ''prysm'', Image = [], Omited = False\<rparr>\<rparr>"

definition someResults :: GenerationResults where
  "someResults =
     \<lparr>EnvFilePath = ''/d/.env'', DockerComposePath = ''/d/docker-compose.yml'',
      ELPort = ''8545'', CLPort = ''4000''\<rparr>"

definition quietEnv :: "unit env" where
  "quietEnv =
     \<lparr>SupportedNetworks = Inr [''mainnet'', ''goerli'', ''sepolia''],
      IsAddress = (\<lambda>a. length a = 42 \<and> take 2 a = ''0x''),
      ValidateLoggingFlag = (\<lambda>l. None),
      GetLoggingDriver = (\<lambda>l. l),
      RequireJWT = (\<lambda>n. True),
      ClientsOf = (\<lambda>n rs. ((), [])),
      validateClients = (\<lambda>f m. Inr someClients),
      GetDependencies = [''docker''],
      CheckDependencies = (\<lambda>i ds. []),
      installDependencies = (\<lambda>i ds. None),
      installOrShowInstructions = (\<lambda>i ds. None),
      handleJWTSecret = (\<lambda>f. Inr (generationPath f @ ''/jwtsecret'')),
      IsAbs = unix_IsAbs,
      Abs = (\<lambda>p. Inr p),
      feeRecipientPrompt = Inr [],
      GenerateScripts = (\<lambda>gd. Inr someResults),
      CleanGenerated = (\<lambda>r. None),
      preRunTeku = None,
      runAndShowContainers = (\<lambda>ss. None),
      runScriptOrExit = None,
      RunValidatorOrExit = None,
      endpointsWellFormed = (\<lambda>e c. True),
      querySyncExecution = (\<lambda>i. ReportsSynced),
      querySyncConsensus = (\<lambda>i. ReportsSynced),
      deadlineTicks = 1\<rparr>"

text \<open>
  Runs of that command: with \<^verbatim>\<open>--no-validator --run-clients=all --yes\<close>; what such
  runs generate; and the events they are made of.
\<close>

definition flagsNoValidator :: flags where
  "flagsNoValidator =
     (defaultFlags ''/d'')\<lparr>noValidator := True, services := [''all''], y := True\<rparr>"

definition someGenerationData :: GenerationData where
  "someGenerationData =
     \<lparr>ExecutionClient = Execution someClients,
      ConsensusClient = Consensus someClients,
      ValidatorClient = Validator someClients,
      GenerationPath = ''/d'', Network = ''mainnet'', CheckpointSyncUrl = [],
      FeeRecipient = [], JWTSecretPath = ''/d/jwtsecret'', Graffiti = [],
      FallbackELUrls = [], ElExtraFlags = [], ClExtraFlags = [], VlExtraFlags = [],
      MapAllPorts = False, Mev = True, MevImage = [], LoggingDriver = ''json''\<rparr>"

definition gdNoValidator :: GenerationData where
  "gdNoValidator =
     someGenerationData
       \<lparr>ValidatorClient := (Validator someClients)\<lparr>Omited := True\<rparr>, Mev := False\<rparr>"

definition generationTrace :: "GenerationData \<Rightarrow> event list" where
  "generationTrace gd =
     [EvGenerateScripts gd, EvCleanGenerated someResults,
      Log Info (CreatedFile ''/d/.env''), EvPrintFileContent ''/d/.env'',
      Log Info (CreatedFile ''/d/docker-compose.yml''),
      EvPrintFileContent ''/d/docker-compose.yml'']"

definition dependenciesTrace :: "event list" where
  "dependenciesTrace = [Log Info (CheckingDependencies ''docker''), Log Info DependenciesOK]"

definition validatorTrace :: "event list" where
  "validatorTrace =
     [EvRunAndShowContainers [''execution'', ''consensus''], Log Info ValidatorTips,
      EvTrackSync Synced \<lparr>executionSynced = True, consensusSynced = True, lastError = None\<rparr>,
      EvRunAndShowContainers [''validator''], Log Info HappyStaking]"

definition traceNoValidator :: "event list" where
  "traceNoValidator =
     dependenciesTrace @ [EvHandleJWTSecret] @ generationTrace gdNoValidator @
     [EvRunAndShowContainers [''execution'', ''consensus'']]"

definition traceNone :: "event list" where
  "traceNone =
     dependenciesTrace @ [EvHandleJWTSecret, EvFeeRecipientPrompt] @
     generationTrace someGenerationData @ [Log Info HappyStaking2]"

text \<open>
  Collaborators whose execution endpoint never reports synced, so that the tracker of one
  tick times out; and the same with a validator container that fails to start.
\<close>

definition slowEnv :: "unit env" where
  "slowEnv = quietEnv\<lparr>querySyncExecution := (\<lambda>i. ReportsSyncing)\<rparr>"

definition brokenValidatorEnv :: "unit env" where
  "brokenValidatorEnv =
     slowEnv\<lparr>runAndShowContainers :=
               (\<lambda>ss. if ss = [''validator''] then Some (External ''docker'') else None)\<rparr>"

definition timeoutTrace :: "event list" where
  "timeoutTrace =
     dependenciesTrace @ [EvHandleJWTSecret] @ generationTrace someGenerationData @
     [EvRunAndShowContainers [''execution'', ''consensus''], Log Info ValidatorTips,
      EvTrackSync TimedOut
        \<lparr>executionSynced = False, consensusSynced = True, lastError = None\<rparr>,
      Log Warn SyncTimeoutWarning,
      EvRunAndShowContainers [''validator'']]"

text \<open>A role template to try \<open>env_base_tmpl\<close> on: one variable, named after the role.\<close>

definition sampleT :: "string \<Rightarrow> EnvData \<Rightarrow> string" where
  "sampleT role d = role @ ''_IMAGE=''"

section \<open>Splitting and joining\<close>

lemma Split_not_Nil: "Split s c \<noteq> []"
  by (induction s) (auto split: list.splits)

lemma Split_append_sep: "Split (a @ c # b) c = Split a c @ Split b c"
proof (induction a)
  case Nil
  show ?case by simp
next
  case (Cons x a)
  then show ?case
    using Split_not_Nil [of a c] by (auto split: list.splits)
qed

lemma Split_no_sep: "c \<notin> set a \<Longrightarrow> Split a c = [a]"
  by (induction a) (auto split: list.splits)

lemma Split_pieces: "l \<in> set (Split s c) \<Longrightarrow> c \<notin> set l"
proof (induction s arbitrary: l)
  case Nil
  then show ?case by simp
next
  case (Cons x s)
  then show ?case
    using Split_not_Nil [of s c] by (auto split: list.splits if_splits)
qed

lemma Split_Join:
  "ls \<noteq> [] \<Longrightarrow> (\<And>l. l \<in> set ls \<Longrightarrow> c \<notin> set l) \<Longrightarrow> Split (Join ls [c]) c = ls"
proof (induction ls "[c]" rule: Join.induct)
  case 1
  then show ?case by simp
next
  case (2 s)
  then show ?case by (simp add: Split_no_sep)
next
  case (3 s t ss)
  have "Split (s @ c # Join (t # ss) [c]) c = Split s c @ Split (Join (t # ss) [c]) c"
    by (rule Split_append_sep)
  also have "Split s c = [s]" using 3(3) by (simp add: Split_no_sep)
  also have "Split (Join (t # ss) [c]) c = t # ss" using 3 by simp
  finally show ?case by simp
qed

section \<open>The cleanup pass is idempotent\<close>

lemma collapseBlank_head: "\<exists>t. collapseBlank (b # ls) = b # t"
  by (induction ls arbitrary: b) auto

lemma collapseBlank_subset: "set (collapseBlank ls) \<subseteq> set ls"
  by (induction ls rule: collapseBlank.induct) auto

lemma collapseBlank_idem: "collapseBlank (collapseBlank ls) = collapseBlank ls"
proof (induction ls rule: collapseBlank.induct)
  case (1 a b ls)
  show ?case
  proof (cases "a = [] \<and> b = []")
    case True
    then show ?thesis using 1 by simp
  next
    case False
    obtain t where t: "collapseBlank (b # ls) = b # t"
      using collapseBlank_head by blast
    have "collapseBlank (a # b # t) = a # collapseBlank (b # t)"
      using False by simp
    with False 1(2) t show ?thesis by auto
  qed
qed simp_all

lemma cleanup_lines_fixed:
  "collapseBlank (removeEmptyVars (collapseBlank (removeEmptyVars ls))) =
   collapseBlank (removeEmptyVars ls)"
proof -
  have "removeEmptyVars (collapseBlank (removeEmptyVars ls)) = collapseBlank (removeEmptyVars ls)"
    unfolding removeEmptyVars_def
    using collapseBlank_subset [of "filter (\<lambda>l. \<not> emptyAssignment l) ls"]
    by (intro filter_True) auto
  then show ?thesis by (simp add: collapseBlank_idem)
qed

lemma cleanup_idem: "cleanup (cleanup doc) = cleanup doc"
proof -
  let ?ls = "collapseBlank (removeEmptyVars (Split doc NL))"
  show ?thesis
  proof (cases "?ls = []")
    case True
    then have "cleanup doc = []" by (simp add: cleanup_def)
    moreover have "cleanup [] = []"
      by (simp add: cleanup_def removeEmptyVars_def emptyAssignment_def)
    ultimately show ?thesis by simp
  next
    case False
    have "\<And>l. l \<in> set ?ls \<Longrightarrow> NL \<notin> set l"
      using collapseBlank_subset [of "removeEmptyVars (Split doc NL)"] Split_pieces [of _ doc NL]
      by (auto simp: removeEmptyVars_def)
    then have "Split (Join ?ls [NL]) NL = ?ls"
      using False by (rule Split_Join [rotated -1])
    then show ?thesis by (simp add: cleanup_def cleanup_lines_fixed)
  qed
qed

text \<open>
  C6. The cleanup pass is idempotent: for every pair of generated documents, cleaning the
  pair twice (in each document, the lines \<^verbatim>\<open>KEY=\<close> removed and consecutive blank
  lines collapsed to one) gives what cleaning it once gives.
\<close>

theorem cleanGenerated_idempotent:
  "cleanGenerated (cleanGenerated docs) = cleanGenerated docs"
  by (simp add: cleanGenerated_def cleanup_idem)

section \<open>Events of a run\<close>

lemma Contains_iff: "Contains xs s \<longleftrightarrow> s \<in> set xs"
  by (simp add: Contains_def)

lemma ContainsOnly_iff: "ContainsOnly xs t \<longleftrightarrow> set xs \<subseteq> set t"
  by (auto simp: ContainsOnly_def Contains_iff list_all_iff)

lemma mem_emit: "ev \<in> set (snd (emit evs r)) \<longleftrightarrow> ev \<in> set evs \<or> ev \<in> set (snd r)"
  by (simp add: emit_def)

lemma snd_emit: "snd (emit evs r) = evs @ snd r"
  by (simp add: emit_def)

lemma fst_emit: "fst (emit evs r) = fst r"
  by (simp add: emit_def)

lemma fst_failed: "fst (failed err) = [err]"
  by (simp add: failed_def)

lemma snd_failed: "snd (failed err) = []"
  by (simp add: failed_def)

lemma trackSync_events:
  "trackSync env a b = (r, tr) \<Longrightarrow> ev \<in> set tr \<Longrightarrow>
     (\<exists>s st. ev = EvTrackSync s st) \<or> ev = Log Warn SyncTimeoutWarning"
  by (auto simp: trackSync_def split: prod.splits track_state.splits)

lemma startValidator_events:
  "ev \<in> set (snd (startValidator env f res)) \<Longrightarrow>
     \<not> noValidator f \<and>
     (ev = Log Info ValidatorTips \<or> ev = Log Info HappyStaking \<or>
      ev = Log Warn SyncTimeoutWarning \<or> (\<exists>s st. ev = EvTrackSync s st) \<or>
      ev = EvRunAndShowContainers [validator] \<or> ev = EvRunValidatorOrExit)"
  by (auto simp: startValidator_def mem_emit snd_failed
      split: if_splits prod.splits option.splits dest: trackSync_events)

lemma startServices_events:
  "ev \<in> set (snd (startServices env f cc res)) \<Longrightarrow>
     ev = Log Info HappyStaking2 \<or>
     services f \<noteq> [] \<and>
     (ev = EvPreRunTeku \<or> ev = EvRunAndShowContainers (services f) \<or> ev = EvRunScriptOrExit \<or>
      ev \<in> set (snd (startValidator env f res)))"
  by (auto simp: startServices_def mem_emit snd_failed
      split: if_splits prod.splits option.splits)

lemma generateScripts_cases:
  assumes "gd = generationData env f (selection f cc)"
  shows "(\<exists>err. GenerateScripts env gd = Inl err \<and>
            generateScripts env f cc = ([err], [EvGenerateScripts gd])) \<or>
         (\<exists>res err. GenerateScripts env gd = Inr res \<and> CleanGenerated env res = Some err \<and>
            generateScripts env f cc = ([err], [EvGenerateScripts gd, EvCleanGenerated res])) \<or>
         (\<exists>res. GenerateScripts env gd = Inr res \<and> CleanGenerated env res = None \<and>
            generateScripts env f cc =
              emit [EvGenerateScripts gd, EvCleanGenerated res,
                    Log Info (CreatedFile (EnvFilePath res)),
                    EvPrintFileContent (EnvFilePath res),
                    Log Info (CreatedFile (DockerComposePath res)),
                    EvPrintFileContent (DockerComposePath res)]
                (startServices env f (selection f cc) res))"
  using assms
  by (auto simp: generateScripts_def Let_def emit_def failed_def split: sum.splits option.splits)

lemma jwtSecret_flags:
  "jwtSecret env f = (Inr f1, tr) \<Longrightarrow> \<exists>p. f1 = f\<lparr>jwtPath := p\<rparr>"
  by (auto simp: jwtSecret_def split: if_splits sum.splits intro: exI [of _ "jwtPath f"])

lemma jwtSecret_events:
  "jwtSecret env f = (r, tr) \<Longrightarrow> ev \<in> set tr \<Longrightarrow> ev = EvHandleJWTSecret"
  by (auto simp: jwtSecret_def split: if_splits sum.splits)

lemma feeRecipientStep_flags:
  "feeRecipientStep env f = (Inr f1, tr) \<Longrightarrow> \<exists>a. f1 = f\<lparr>feeRecipient := a\<rparr>"
  by (auto simp: feeRecipientStep_def split: if_splits sum.splits intro: exI [of _ "feeRecipient f"])

lemma feeRecipientStep_events:
  "feeRecipientStep env f = (r, tr) \<Longrightarrow> ev \<in> set tr \<Longrightarrow> ev = EvFeeRecipientPrompt"
  by (auto simp: feeRecipientStep_def split: if_splits sum.splits)

lemma prepareAndGenerate_cases:
  "(fst (prepareAndGenerate env f cc) \<noteq> [] \<and>
      (\<forall>ev \<in> set (snd (prepareAndGenerate env f cc)). preparation ev)) \<or>
   (\<exists>pre p a. (\<forall>ev \<in> set pre. preparation ev) \<and>
      fst (jwtSecret env f) = Inr (f\<lparr>jwtPath := p\<rparr>) \<and>
      prepareAndGenerate env f cc =
        emit pre (generateScripts env (f\<lparr>jwtPath := p, feeRecipient := a\<rparr>) cc))"
proof (cases "jwtSecret env f")
  case (Pair r1 tr1)
  have pre1: "\<forall>ev \<in> set tr1. preparation ev"
    using jwtSecret_events [OF Pair] by fastforce
  show ?thesis
  proof (cases r1)
    case (Inl err)
    then show ?thesis using Pair pre1
      by (auto simp: prepareAndGenerate_def emit_def failed_def)
  next
    case (Inr f1)
    then obtain p where f1: "f1 = f\<lparr>jwtPath := p\<rparr>"
      using jwtSecret_flags Pair by blast
    show ?thesis
    proof (cases "feeRecipientStep env f1")
      case (Pair r2 tr2)
      have pre2: "\<forall>ev \<in> set tr2. preparation ev"
        using feeRecipientStep_events [OF Pair] by fastforce
      show ?thesis
      proof (cases r2)
        case (Inl err)
        then show ?thesis using Pair \<open>jwtSecret env f = (r1, tr1)\<close> \<open>r1 = Inr f1\<close> pre1 pre2
          by (auto simp: prepareAndGenerate_def emit_def failed_def)
      next
        case (Inr f2)
        then obtain a where f2: "f2 = f1\<lparr>feeRecipient := a\<rparr>"
          using feeRecipientStep_flags Pair by blast
        have "prepareAndGenerate env f cc =
                emit (tr1 @ tr2) (generateScripts env (f\<lparr>jwtPath := p, feeRecipient := a\<rparr>) cc)"
          using Pair Inr \<open>jwtSecret env f = (r1, tr1)\<close> \<open>r1 = Inr f1\<close> f1 f2
          by (simp add: prepareAndGenerate_def emit_def)
        moreover have "\<forall>ev \<in> set (tr1 @ tr2). preparation ev"
          using pre1 pre2 by auto
        moreover have "fst (jwtSecret env f) = Inr (f\<lparr>jwtPath := p\<rparr>)"
          using \<open>jwtSecret env f = (r1, tr1)\<close> \<open>r1 = Inr f1\<close> f1 by simp
        ultimately show ?thesis by blast
      qed
    qed
  qed
qed

lemma dependenciesLoop_events:
  "dependenciesLoop env f fuel i = Some r \<Longrightarrow> ev \<in> set (snd r) \<Longrightarrow> preparation ev"
proof (induction fuel arbitrary: i r)
  case 0
  then show ?case by simp
next
  case (Suc fuel)
  then show ?case
    by (auto simp: Let_def split: if_splits option.splits)
qed

lemma runCliCmd_cases:
  assumes "runCliCmd fuel env f = Some r"
  shows "(fst r \<noteq> [] \<and> (\<forall>ev \<in> set (snd r). preparation ev)) \<or>
         (\<exists>pre p a cc. (\<forall>ev \<in> set pre. preparation ev) \<and>
            fst (jwtSecret env f) = Inr (f\<lparr>jwtPath := p\<rparr>) \<and>
            r = emit pre (generateScripts env (f\<lparr>jwtPath := p, feeRecipient := a\<rparr>) cc))"
proof (cases "ClientsOf env (network f) [execution, consensus, validator]")
  case (Pair clientsMap errors)
  have w: "\<forall>ev \<in> set (warnings f). preparation ev"
    by (auto simp: warnings_def)
  show ?thesis
  proof (cases "length errors > 0")
    case True
    then show ?thesis using assms Pair w by (auto simp: runCliCmd_def)
  next
    case False
    note noerr = this
    show ?thesis
    proof (cases "validateClients env f clientsMap")
      case (Inl err)
      then show ?thesis using assms Pair noerr w
        by (auto simp: runCliCmd_def emit_def failed_def)
    next
      case (Inr cc)
      show ?thesis
      proof (cases "dependenciesLoop env f fuel 0")
        case None
        then show ?thesis using assms Pair noerr Inr by (simp add: runCliCmd_def)
      next
        case (Some d)
        obtain de dtr where d: "d = (de, dtr)" by (cases d)
        have dpre: "\<forall>ev \<in> set dtr. preparation ev"
          using dependenciesLoop_events [OF Some] d by auto
        show ?thesis
        proof (cases de)
          case (Some err)
          then show ?thesis using assms Pair noerr Inr \<open>dependenciesLoop env f fuel 0 = Some d\<close> d w dpre
            by (auto simp: runCliCmd_def emit_def failed_def)
        next
          case None
          let ?pre = "warnings f @
                        [Log Info (CheckingDependencies (Join (GetDependencies env) '', ''))] @
                        dtr @ [Log Info DependenciesOK]"
          have r: "r = emit ?pre (prepareAndGenerate env f cc)"
            using assms Pair noerr Inr \<open>dependenciesLoop env f fuel 0 = Some d\<close> d None
            by (simp add: runCliCmd_def)
          have pre: "\<forall>ev \<in> set ?pre. preparation ev"
            using w dpre by auto
          from prepareAndGenerate_cases [of env f cc] show ?thesis
          proof
            assume "fst (prepareAndGenerate env f cc) \<noteq> [] \<and>
                    (\<forall>ev \<in> set (snd (prepareAndGenerate env f cc)). preparation ev)"
            then show ?thesis using r pre by (auto simp: emit_def)
          next
            assume "\<exists>pre p a. (\<forall>ev \<in> set pre. preparation ev) \<and>
                      fst (jwtSecret env f) = Inr (f\<lparr>jwtPath := p\<rparr>) \<and>
                      prepareAndGenerate env f cc =
                        emit pre (generateScripts env (f\<lparr>jwtPath := p, feeRecipient := a\<rparr>) cc)"
            then obtain pre' p a where
              p': "\<forall>ev \<in> set pre'. preparation ev" and
              j: "fst (jwtSecret env f) = Inr (f\<lparr>jwtPath := p\<rparr>)" and
              e: "prepareAndGenerate env f cc =
                    emit pre' (generateScripts env (f\<lparr>jwtPath := p, feeRecipient := a\<rparr>) cc)"
              by blast
            have "r = emit (?pre @ pre')
                        (generateScripts env (f\<lparr>jwtPath := p, feeRecipient := a\<rparr>) cc)"
              using r e by (simp add: emit_def)
            moreover have "\<forall>ev \<in> set (?pre @ pre'). preparation ev"
              using pre p' by auto
            ultimately show ?thesis using j by blast
          qed
        qed
      qed
    qed
  qed
qed

section \<open>Flags after the pre-run\<close>

lemma quickRun_keeps:
  "services (quickRun f) = services f"
  "noValidator (quickRun f) = noValidator f"
  "noMev (quickRun f) = noMev f"
  "jwtPath (quickRun f) = jwtPath f"
  "network (quickRun f) = network f"
  "feeRecipient (quickRun f) = feeRecipient f"
  "loggingFlag (quickRun f) = loggingFlag f"
  "run (quickRun f) = (run f \<or> y f)"
  by (simp_all add: quickRun_def)

lemma customImages_keeps:
  "services (customImages f) = services f"
  "noValidator (customImages f) = noValidator f"
  "noMev (customImages f) = noMev f"
  "jwtPath (customImages f) = jwtPath f"
  "run (customImages f) = run f"
  "loggingFlag (customImages f) = loggingFlag f"
  by (simp_all add: customImages_def Let_def)

lemma excludeValidator_keeps:
  "noValidator (excludeValidator f) = noValidator f"
  "noMev (excludeValidator f) = noMev f"
  "jwtPath (excludeValidator f) = jwtPath f"
  "run (excludeValidator f) = run f"
  "network (excludeValidator f) = network f"
  "feeRecipient (excludeValidator f) = feeRecipient f"
  "loggingFlag (excludeValidator f) = loggingFlag f"
  by (simp_all add: excludeValidator_def)

lemma excludeValidator_services:
  "services (excludeValidator f) =
     (if noValidator f then filter (\<lambda>s. s \<noteq> validator) (services f) else services f)"
proof -
  have "validator \<notin> set (services f) \<Longrightarrow> filter (\<lambda>s. s \<noteq> validator) (services f) = services f"
    by (intro filter_True) auto
  then show ?thesis by (auto simp: excludeValidator_def Contains_iff Filter_def)
qed

lemmas keeps = quickRun_keeps customImages_keeps excludeValidator_keeps

lemma preRun_keeps:
  "noValidator (snd (preRunCliCmd env f)) = noValidator f"
  "noMev (snd (preRunCliCmd env f)) = noMev f"
  "jwtPath (snd (preRunCliCmd env f)) = jwtPath f"
  "run (snd (preRunCliCmd env f)) = (run f \<or> y f)"
  by (simp_all add: preRunCliCmd_def Let_def keeps split: sum.split option.split)

lemma preRun_services:
  "runClientsFlag (services f) = Inr svcs \<Longrightarrow>
     services (snd (preRunCliCmd env f)) =
       (if noValidator f then filter (\<lambda>s. s \<noteq> validator) svcs else svcs)"
  by (simp add: preRunCliCmd_def Let_def keeps excludeValidator_services
      split: sum.split option.split)

lemma preRun_ok_services:
  "fst (preRunCliCmd env f) = None \<Longrightarrow> \<exists>svcs. runClientsFlag (services f) = Inr svcs"
  by (cases "runClientsFlag (services f)") (simp_all add: preRunCliCmd_def Let_def quickRun_keeps)

lemma preRun_error:
  "fst (preRunCliCmd env f) =
     (case runClientsFlag (services f) of
        Inl err \<Rightarrow> Some err
      | Inr svcs \<Rightarrow>
          (case SupportedNetworks env of
             Inl err \<Rightarrow> Some (NetworkValidationFailedError err)
           | Inr networks \<Rightarrow>
               if network f \<notin> set networks then Some (UnknownNetworkError (network f))
               else if feeRecipient f \<noteq> [] \<and> \<not> IsAddress env (feeRecipient f)
                 then Some InvalidFeeRecipientError
               else ValidateLoggingFlag env (loggingFlag f)))"
  by (simp add: preRunCliCmd_def Let_def Contains_iff keeps
      split: sum.split option.split)

lemma CliCmd_fatal:
  "fst (preRunCliCmd env f) = Some err \<Longrightarrow> CliCmd fuel env f = Some (PreRunFatal err, [])"
  by (cases "preRunCliCmd env f") (simp add: CliCmd_def)

lemma runClientsFlag_ambiguous:
  assumes "x = ''all'' \<or> x = ''none''" and "x \<in> set svcs" and "s \<in> set svcs" and "s \<noteq> x"
  shows "runClientsFlag svcs = Inl (RunClientsFlagAmbiguousError svcs)"
proof -
  have "length svcs \<noteq> 1"
  proof
    assume "length svcs = 1"
    then obtain z where "svcs = [z]" by (cases svcs) auto
    with assms show False by auto
  qed
  with assms show ?thesis by (auto simp: runClientsFlag_def Contains_iff)
qed

lemma CliCmd_run:
  assumes "CliCmd fuel env f = Some (out, tr)" and "ev \<in> set tr"
  shows "fst (preRunCliCmd env f) = None \<and>
         (\<exists>r. runCliCmd fuel env (snd (preRunCliCmd env f)) = Some r \<and> tr = snd r \<and>
              out = (if length (fst r) > 0 then RunErrors (fst r) else RunOK))"
proof (cases "preRunCliCmd env f")
  case (Pair e f')
  show ?thesis
  proof (cases e)
    case (Some err)
    with Pair assms(1) have "tr = []" by (simp add: CliCmd_def)
    with assms(2) show ?thesis by simp
  next
    case None
    note e = this
    show ?thesis
    proof (cases "runCliCmd fuel env f'")
      case None
      with Pair e assms(1) show ?thesis by (simp add: CliCmd_def)
    next
      case (Some r)
      with Pair e assms(1) have "tr = snd r"
        and "out = (if length (fst r) > 0 then RunErrors (fst r) else RunOK)"
        by (simp_all add: CliCmd_def)
      with Pair e Some show ?thesis by simp
    qed
  qed
qed

section \<open>Events of the generation and of the command\<close>

lemma generateScripts_events:
  assumes "ev \<in> set (snd (generateScripts env f cc))"
  shows "ev = EvGenerateScripts (generationData env f (selection f cc)) \<or>
         (\<exists>res. ev = EvCleanGenerated res) \<or> (\<exists>p. ev = EvPrintFileContent p) \<or>
         (\<exists>l m. ev = Log l m) \<or> (\<exists>s st. ev = EvTrackSync s st) \<or>
         services f \<noteq> [] \<and>
         (ev = EvPreRunTeku \<or> ev = EvRunAndShowContainers (services f) \<or>
          ev = EvRunScriptOrExit \<or>
          \<not> noValidator f \<and>
          (ev = EvRunAndShowContainers [validator] \<or> ev = EvRunValidatorOrExit))"
proof -
  let ?gd = "generationData env f (selection f cc)"
  from generateScripts_cases [of ?gd env f cc, OF refl] show ?thesis
  proof (elim disjE exE conjE)
    fix err
    assume "generateScripts env f cc = ([err], [EvGenerateScripts ?gd])"
    with assms show ?thesis by simp
  next
    fix res err
    assume "generateScripts env f cc = ([err], [EvGenerateScripts ?gd, EvCleanGenerated res])"
    with assms show ?thesis by auto
  next
    fix res
    assume "generateScripts env f cc =
              emit [EvGenerateScripts ?gd, EvCleanGenerated res,
                    Log Info (CreatedFile (EnvFilePath res)),
                    EvPrintFileContent (EnvFilePath res),
                    Log Info (CreatedFile (DockerComposePath res)),
                    EvPrintFileContent (DockerComposePath res)]
                (startServices env f (selection f cc) res)"
    with assms have "ev \<in> {EvGenerateScripts ?gd, EvCleanGenerated res,
                    Log Info (CreatedFile (EnvFilePath res)),
                    EvPrintFileContent (EnvFilePath res),
                    Log Info (CreatedFile (DockerComposePath res)),
                    EvPrintFileContent (DockerComposePath res)} \<or>
                  ev \<in> set (snd (startServices env f (selection f cc) res))"
      by (auto simp: mem_emit)
    then show ?thesis
    proof
      assume "ev \<in> set (snd (startServices env f (selection f cc) res))"
      from startServices_events [OF this] show ?thesis
        using startValidator_events [of ev env f res] by blast
    qed auto
  qed
qed

section \<open>The validator under no-validator\<close>

lemma run_events:
  assumes "runCliCmd fuel env f = Some r" and "ev \<in> set (snd r)"
  shows "preparation ev \<or>
         (\<exists>p a cc. fst (jwtSecret env f) = Inr (f\<lparr>jwtPath := p\<rparr>) \<and>
            ev \<in> set (snd (generateScripts env (f\<lparr>jwtPath := p, feeRecipient := a\<rparr>) cc)))"
proof -
  from runCliCmd_cases [OF assms(1)] show ?thesis
  proof
    assume "fst r \<noteq> [] \<and> (\<forall>ev \<in> set (snd r). preparation ev)"
    with assms(2) show ?thesis by blast
  next
    assume "\<exists>pre p a cc. (\<forall>ev \<in> set pre. preparation ev) \<and>
              fst (jwtSecret env f) = Inr (f\<lparr>jwtPath := p\<rparr>) \<and>
              r = emit pre (generateScripts env (f\<lparr>jwtPath := p, feeRecipient := a\<rparr>) cc)"
    then obtain pre p a cc where
      pre: "\<forall>ev \<in> set pre. preparation ev" and
      j: "fst (jwtSecret env f) = Inr (f\<lparr>jwtPath := p\<rparr>)" and
      r: "r = emit pre (generateScripts env (f\<lparr>jwtPath := p, feeRecipient := a\<rparr>) cc)"
      by blast
    from assms(2) r have
      "ev \<in> set pre \<or>
       ev \<in> set (snd (generateScripts env (f\<lparr>jwtPath := p, feeRecipient := a\<rparr>) cc))"
      by (simp add: mem_emit)
    with pre j show ?thesis by blast
  qed
qed

lemma run_not_started:
  assumes "runCliCmd fuel env f = Some r" and "ev \<in> set (snd r)"
    and "noValidator f" and "validator \<notin> set (services f)"
  shows "ev \<noteq> EvRunValidatorOrExit \<and> (\<forall>ss. ev = EvRunAndShowContainers ss \<longrightarrow> validator \<notin> set ss)"
proof -
  from run_events [OF assms(1,2)] show ?thesis
  proof
    assume "preparation ev"
    then show ?thesis by (cases ev) simp_all
  next
    assume "\<exists>p a cc. fst (jwtSecret env f) = Inr (f\<lparr>jwtPath := p\<rparr>) \<and>
              ev \<in> set (snd (generateScripts env (f\<lparr>jwtPath := p, feeRecipient := a\<rparr>) cc))"
    then obtain p a cc where
      "ev \<in> set (snd (generateScripts env (f\<lparr>jwtPath := p, feeRecipient := a\<rparr>) cc))"
      by blast
    from generateScripts_events [OF this] assms(3,4) show ?thesis
      by auto
  qed
qed

text \<open>
  C10. After pre-run validation succeeds, if the no-validator flag is set then the
  resulting service list does not contain \<^verbatim>\<open>validator\<close> (an entry given by the user, or
  produced by expanding \<^verbatim>\<open>all\<close>, is filtered out), and the validator is never among the
  services started: no call of \<^verbatim>\<open>runAndShowContainers\<close> of the command names it, and
  \<^verbatim>\<open>RunValidatorOrExit\<close> is never called.
\<close>

theorem no_validator_not_started:
  assumes "noValidator f"
  shows "(fst (preRunCliCmd env f) = None \<longrightarrow>
            validator \<notin> set (services (snd (preRunCliCmd env f)))) \<and>
         (\<forall>out tr ev. CliCmd fuel env f = Some (out, tr) \<longrightarrow> ev \<in> set tr \<longrightarrow>
            ev \<noteq> EvRunValidatorOrExit \<and>
            (\<forall>ss. ev = EvRunAndShowContainers ss \<longrightarrow> validator \<notin> set ss))"
proof -
  have v: "validator \<notin> set (services (snd (preRunCliCmd env f)))"
    if "fst (preRunCliCmd env f) = None"
  proof -
    from that obtain svcs where "runClientsFlag (services f) = Inr svcs"
      using preRun_ok_services by blast
    from preRun_services [OF this, where env = env] assms show ?thesis by simp
  qed
  have "ev \<noteq> EvRunValidatorOrExit \<and>
        (\<forall>ss. ev = EvRunAndShowContainers ss \<longrightarrow> validator \<notin> set ss)"
    if c: "CliCmd fuel env f = Some (out, tr)" and ev: "ev \<in> set tr" for out tr ev
  proof -
    from CliCmd_run [OF c ev] obtain r where
      ok: "fst (preRunCliCmd env f) = None" and
      r: "runCliCmd fuel env (snd (preRunCliCmd env f)) = Some r" and tr: "tr = snd r"
      by blast
    have n: "noValidator (snd (preRunCliCmd env f))"
      using assms by (simp add: preRun_keeps)
    from ev tr have "ev \<in> set (snd r)" by simp
    from run_not_started [OF r this n v [OF ok]] show ?thesis .
  qed
  with v show ?thesis by blast
qed

theorem no_validator_not_started_witness:
  "noValidator flagsNoValidator \<and>
   fst (preRunCliCmd quietEnv flagsNoValidator) = None \<and>
   validator \<notin> set (services (snd (preRunCliCmd quietEnv flagsNoValidator))) \<and>
   CliCmd 1 quietEnv flagsNoValidator = Some (RunOK, traceNoValidator) \<and>
   EvRunAndShowContainers [execution, consensus] \<in> set traceNoValidator \<and>
   validator \<notin> set [execution, consensus]"
proof -
  have n: "noValidator flagsNoValidator" by code_simp
  have p: "fst (preRunCliCmd quietEnv flagsNoValidator) = None" by code_simp
  have c: "CliCmd 1 quietEnv flagsNoValidator = Some (RunOK, traceNoValidator)" by code_simp
  have e: "EvRunAndShowContainers [execution, consensus] \<in> set traceNoValidator" by code_simp
  from no_validator_not_started [OF n, of quietEnv 1] p c e n show ?thesis by blast
qed

section \<open>The environment document of the template\<close>

lemma hasVar_append: "hasVar key (a @ NL # b) \<longleftrightarrow> hasVar key a \<or> hasVar key b"
  by (simp add: hasVar_def Split_append_sep)

lemma varValues_append:
  "varValues key (a @ NL # b) = varValues key a @ varValues key b"
  by (simp add: varValues_def Split_append_sep)

lemma varValues_none: "\<not> hasVar key a \<Longrightarrow> varValues key a = []"
  by (simp add: varValues_def hasVar_def list_ex_iff filter_empty_conv)

lemma varValues_line:
  assumes "NL \<notin> set key" and "NL \<notin> set v"
  shows "varValues key (key @ ''='' @ v) = [v]"
proof -
  have "NL \<notin> set (key @ ''='' @ v)"
    using assms by (simp add: NL_def)
  then have "Split (key @ ''='' @ v) NL = [key @ ''='' @ v]"
    by (rule Split_no_sep)
  then show ?thesis
    by (simp add: varValues_def setsVar_def HasPrefix_def)
qed

lemma lookupVar_single: "varValues key doc = [v] \<Longrightarrow> lookupVar key doc = Some v"
  by (simp add: lookupVar_def)

lemma header_no_relay:
  "\<not> hasVar ''RELAY_URL'' []"
  "\<not> hasVar ''RELAY_URL'' ''# --- Global configuration ---''"
  "\<not> hasVar ''RELAY_URL'' ''NETWORK=goerli''"
  by (simp_all add: hasVar_def setsVar_def HasPrefix_def NL_def)

lemma env_base_shape:
  "env_base_tmpl executionT consensusT validatorT d =
     [] @ NL # (''# --- Global configuration ---'' @ NL # (''NETWORK=goerli'' @
       (if dotMev d then
          NL # ((''RELAY_URL'' @ ''='' @
                  (if dotRelayURL d \<noteq> [] then dotRelayURL d else goerliRelayURL)) @
                NL # (executionT d @ NL # (consensusT d @ NL # (validatorT d @ NL # []))))
        else NL # (executionT d @ NL # (consensusT d @ NL # (validatorT d @ NL # []))))))"
  by (simp add: env_base_tmpl_def)

lemma env_base_no_relay:
  assumes "\<not> dotMev d"
    and "\<not> hasVar ''RELAY_URL'' (executionT d)"
    and "\<not> hasVar ''RELAY_URL'' (consensusT d)"
    and "\<not> hasVar ''RELAY_URL'' (validatorT d)"
  shows "\<not> hasVar ''RELAY_URL'' (env_base_tmpl executionT consensusT validatorT d)"
  unfolding env_base_shape using assms header_no_relay
  by (simp only: hasVar_append if_False simp_thms)

lemma goerliRelayURL_line: "NL \<notin> set goerliRelayURL"
  by (simp add: goerliRelayURL_def NL_def)

lemma env_base_relay:
  assumes "dotMev d" and "NL \<notin> set (dotRelayURL d)"
    and "\<not> hasVar ''RELAY_URL'' (executionT d)"
    and "\<not> hasVar ''RELAY_URL'' (consensusT d)"
    and "\<not> hasVar ''RELAY_URL'' (validatorT d)"
  shows "varValues ''RELAY_URL'' (env_base_tmpl executionT consensusT validatorT d) =
           [if dotRelayURL d \<noteq> [] then dotRelayURL d else goerliRelayURL]"
proof -
  let ?v = "if dotRelayURL d \<noteq> [] then dotRelayURL d else goerliRelayURL"
  have v: "NL \<notin> set ?v" using assms(2) goerliRelayURL_line by simp
  have k: "NL \<notin> set ''RELAY_URL''" by (simp add: NL_def)
  have l: "varValues ''RELAY_URL'' (''RELAY_URL'' @ ''='' @ ?v) = [?v]"
    using k v by (rule varValues_line)
  have n: "varValues ''RELAY_URL'' [] = []"
    "varValues ''RELAY_URL'' ''# --- Global configuration ---'' = []"
    "varValues ''RELAY_URL'' ''NETWORK=goerli'' = []"
    by (rule varValues_none, rule header_no_relay)+
  have r: "varValues ''RELAY_URL'' (executionT d) = []"
    "varValues ''RELAY_URL'' (consensusT d) = []"
    "varValues ''RELAY_URL'' (validatorT d) = []"
    using assms(3-5) by (simp_all add: varValues_none)
  show ?thesis
    unfolding env_base_shape using assms(1)
    by (simp only: if_True varValues_append n l r) simp
qed

section \<open>What a run generates\<close>

lemma preparation_not_started: "preparation ev \<Longrightarrow> \<not> startsContainers ev"
  by (cases ev) simp_all

lemma generationData_fields:
  "Mev (generationData env f cc) = (\<not> noMev f \<and> \<not> noValidator f)"
  "ValidatorClient (generationData env f cc) = Validator cc"
  "JWTSecretPath (generationData env f cc) = jwtPath f"
  by (simp_all add: generationData_def)

lemma selection_Omited: "Omited (Validator (selection f cc)) = noValidator f"
  by (simp add: selection_def)

text \<open>What is generated in a run is the generation data of its flags, with the JWT
  path that the step of lines 222 to 231 left.\<close>

lemma run_generated:
  assumes "runCliCmd fuel env f = Some r" and "EvGenerateScripts gd \<in> set (snd r)"
  shows "\<exists>p a cc. fst (jwtSecret env f) = Inr (f\<lparr>jwtPath := p\<rparr>) \<and>
           gd = generationData env (f\<lparr>jwtPath := p, feeRecipient := a\<rparr>)
                  (selection (f\<lparr>jwtPath := p, feeRecipient := a\<rparr>) cc)"
proof -
  from run_events [OF assms] obtain p a cc where
    j: "fst (jwtSecret env f) = Inr (f\<lparr>jwtPath := p\<rparr>)" and
    g: "EvGenerateScripts gd
          \<in> set (snd (generateScripts env (f\<lparr>jwtPath := p, feeRecipient := a\<rparr>) cc))"
    by auto
  from generateScripts_events [OF g]
  have "gd = generationData env (f\<lparr>jwtPath := p, feeRecipient := a\<rparr>)
               (selection (f\<lparr>jwtPath := p, feeRecipient := a\<rparr>) cc)"
    by simp
  with j show ?thesis by blast
qed

lemma CliCmd_generated:
  assumes "CliCmd fuel env f = Some (out, tr)" and "EvGenerateScripts gd \<in> set tr"
  shows "\<exists>f' p a cc. f' = snd (preRunCliCmd env f) \<and>
           fst (jwtSecret env f') = Inr (f'\<lparr>jwtPath := p\<rparr>) \<and>
           gd = generationData env (f'\<lparr>jwtPath := p, feeRecipient := a\<rparr>)
                  (selection (f'\<lparr>jwtPath := p, feeRecipient := a\<rparr>) cc)"
proof -
  from CliCmd_run [OF assms] obtain r where
    r: "runCliCmd fuel env (snd (preRunCliCmd env f)) = Some r" and tr: "tr = snd r"
    by blast
  from assms(2) tr have "EvGenerateScripts gd \<in> set (snd r)" by simp
  from run_generated [OF r this] show ?thesis by blast
qed

text \<open>
  C1. For every run of the command with \<^verbatim>\<open>--no-validator\<close> set, whatever
  \<^verbatim>\<open>--no-mev-boost\<close> says, MEV-boost is off in what is composed: the generation data
  handed to \<^verbatim>\<open>generate.GenerateScripts\<close> have \<^verbatim>\<open>Mev\<close> false, the selection they carry
  has the validator marked \<^verbatim>\<open>Omited\<close>, and the environment document that
  \<^verbatim>\<open>env_base.tmpl\<close> makes from data with that \<^verbatim>\<open>.Mev\<close> sets no \<^verbatim>\<open>RELAY_URL\<close> (the
  templates of the three roles setting none).
\<close>

theorem no_validator_no_mev:
  assumes "noValidator f"
    and "CliCmd fuel env f = Some (out, tr)"
    and "EvGenerateScripts gd \<in> set tr"
    and "dotMev d = Mev gd"
    and "\<not> hasVar ''RELAY_URL'' (executionT d)"
    and "\<not> hasVar ''RELAY_URL'' (consensusT d)"
    and "\<not> hasVar ''RELAY_URL'' (validatorT d)"
  shows "\<not> Mev gd \<and> Omited (ValidatorClient gd) \<and>
         \<not> hasVar ''RELAY_URL'' (env_base_tmpl executionT consensusT validatorT d)"
proof -
  from CliCmd_generated [OF assms(2,3)] obtain f' p a cc where
    f': "f' = snd (preRunCliCmd env f)" and
    gd: "gd = generationData env (f'\<lparr>jwtPath := p, feeRecipient := a\<rparr>)
                (selection (f'\<lparr>jwtPath := p, feeRecipient := a\<rparr>) cc)"
    by blast
  have n: "noValidator f'" using assms(1) f' by (simp add: preRun_keeps)
  have m: "\<not> Mev gd" using n gd by (simp add: generationData_fields)
  have v: "Omited (ValidatorClient gd)"
    using n gd by (simp add: generationData_fields selection_Omited)
  from m assms(4) have "\<not> dotMev d" by simp
  then have "\<not> hasVar ''RELAY_URL'' (env_base_tmpl executionT consensusT validatorT d)"
    using assms(5-7) by (rule env_base_no_relay)
  with m v show ?thesis by blast
qed

theorem no_validator_no_mev_witness:
  "noValidator flagsNoValidator \<and> \<not> noMev flagsNoValidator \<and>
   CliCmd 1 quietEnv flagsNoValidator = Some (RunOK, traceNoValidator) \<and>
   EvGenerateScripts gdNoValidator \<in> set traceNoValidator \<and>
   \<not> Mev gdNoValidator \<and> Omited (ValidatorClient gdNoValidator) \<and>
   \<not> hasVar ''RELAY_URL''
       (env_base_tmpl (sampleT ''EC'') (sampleT ''CC'') (sampleT ''VL'')
          \<lparr>dotMev = Mev gdNoValidator, dotRelayURL = []\<rparr>)"
proof -
  let ?d = "\<lparr>dotMev = Mev gdNoValidator, dotRelayURL = []\<rparr>"
  have n: "noValidator flagsNoValidator" by code_simp
  have m: "\<not> noMev flagsNoValidator" by code_simp
  have c: "CliCmd 1 quietEnv flagsNoValidator = Some (RunOK, traceNoValidator)" by code_simp
  have e: "EvGenerateScripts gdNoValidator \<in> set traceNoValidator" by code_simp
  have d: "dotMev ?d = Mev gdNoValidator" by simp
  have t: "\<not> hasVar ''RELAY_URL'' (sampleT ''EC'' ?d)"
    "\<not> hasVar ''RELAY_URL'' (sampleT ''CC'' ?d)"
    "\<not> hasVar ''RELAY_URL'' (sampleT ''VL'' ?d)"
    by code_simp+
  from no_validator_no_mev
         [where executionT = "sampleT ''EC''" and consensusT = "sampleT ''CC''"
            and validatorT = "sampleT ''VL''" and d = ?d, OF n c e d t]
       n m c e
  show ?thesis by blast
qed

section \<open>The relay of the template\<close>

lemma goerli_fallback_first: "hd goerliDefaultRelayURLs = goerliRelayURL"
  by (simp add: goerliDefaultRelayURLs_def goerliRelayURL_def)

text \<open>
  C7, amended. With MEV enabled and the role templates setting no \<^verbatim>\<open>RELAY_URL\<close>, the
  composed environment of goerli has one line that sets \<^verbatim>\<open>RELAY_URL\<close>, and one only.
  When the data carry no relay URL, its value is the single relay that the template
  writes out, the first of the default relays of the network, and not the whole list.
  When they carry one, its value is exactly that: it replaces the default, and nothing is
  appended, neither to the value nor as a second line.
\<close>

theorem relay_url_fallback_or_replaced:
  assumes "dotMev d" and "NL \<notin> set (dotRelayURL d)"
    and "\<not> hasVar ''RELAY_URL'' (executionT d)"
    and "\<not> hasVar ''RELAY_URL'' (consensusT d)"
    and "\<not> hasVar ''RELAY_URL'' (validatorT d)"
  shows "varValues ''RELAY_URL'' (env_base_tmpl executionT consensusT validatorT d) =
           [if dotRelayURL d = []
            then ''https://0xafa4c6985aa049fb79dd37010438cfebeb0f2bd42b115b89dd678dab0670c1de38da0c4e9138c9290a398ecd9a0b3110@builder-relay-goerli.flashbots.net''
            else dotRelayURL d] \<and>
         lookupVar ''RELAY_URL'' (env_base_tmpl executionT consensusT validatorT d) =
           Some (if dotRelayURL d = []
                 then ''https://0xafa4c6985aa049fb79dd37010438cfebeb0f2bd42b115b89dd678dab0670c1de38da0c4e9138c9290a398ecd9a0b3110@builder-relay-goerli.flashbots.net''
                 else dotRelayURL d)"
proof -
  have "varValues ''RELAY_URL'' (env_base_tmpl executionT consensusT validatorT d) =
          [if dotRelayURL d = []
           then ''https://0xafa4c6985aa049fb79dd37010438cfebeb0f2bd42b115b89dd678dab0670c1de38da0c4e9138c9290a398ecd9a0b3110@builder-relay-goerli.flashbots.net''
           else dotRelayURL d]"
    using assms by (simp add: env_base_relay goerliRelayURL_def)
  then show ?thesis by (simp add: lookupVar_single)
qed

theorem relay_url_fallback_or_replaced_witness:
  "varValues ''RELAY_URL''
     (env_base_tmpl (sampleT ''EC'') (sampleT ''CC'') (sampleT ''VL'')
        \<lparr>dotMev = True, dotRelayURL = []\<rparr>) = [goerliRelayURL] \<and>
   varValues ''RELAY_URL''
     (env_base_tmpl (sampleT ''EC'') (sampleT ''CC'') (sampleT ''VL'')
        \<lparr>dotMev = True, dotRelayURL = ''https://a.example,https://b.example''\<rparr>) =
     [''https://a.example,https://b.example''] \<and>
   lookupVar ''RELAY_URL''
     (env_base_tmpl (sampleT ''EC'') (sampleT ''CC'') (sampleT ''VL'')
        \<lparr>dotMev = True, dotRelayURL = ''https://a.example,https://b.example''\<rparr>) =
     Some ''https://a.example,https://b.example''"
proof -
  let ?d1 = "\<lparr>dotMev = True, dotRelayURL = []\<rparr>"
  let ?d2 = "\<lparr>dotMev = True, dotRelayURL = ''https://a.example,https://b.example''\<rparr>"
  have 1: "dotMev ?d1" and 2: "NL \<notin> set (dotRelayURL ?d1)"
    by simp_all
  have 3: "dotMev ?d2" and 4: "NL \<notin> set (dotRelayURL ?d2)"
    by (simp_all add: NL_def)
  have t1: "\<not> hasVar ''RELAY_URL'' (sampleT ''EC'' ?d1)"
    "\<not> hasVar ''RELAY_URL'' (sampleT ''CC'' ?d1)"
    "\<not> hasVar ''RELAY_URL'' (sampleT ''VL'' ?d1)"
    by code_simp+
  have t2: "\<not> hasVar ''RELAY_URL'' (sampleT ''EC'' ?d2)"
    "\<not> hasVar ''RELAY_URL'' (sampleT ''CC'' ?d2)"
    "\<not> hasVar ''RELAY_URL'' (sampleT ''VL'' ?d2)"
    by code_simp+
  from relay_url_fallback_or_replaced
         [where executionT = "sampleT ''EC''" and consensusT = "sampleT ''CC''"
            and validatorT = "sampleT ''VL''" and d = ?d1, OF 1 2 t1]
       relay_url_fallback_or_replaced
         [where executionT = "sampleT ''EC''" and consensusT = "sampleT ''CC''"
            and validatorT = "sampleT ''VL''" and d = ?d2, OF 3 4 t2]
  show ?thesis by (simp add: goerliRelayURL_def)
qed

text \<open>
  C7 as stated fails. No relay URL is given, and the \<^verbatim>\<open>RELAY_URL\<close> of the composed
  environment is the one relay of the template, which is not the default relay list of
  goerli joined by commas: that list has five relays.
\<close>

theorem relay_url_default_list_counterexample:
  "dotMev \<lparr>dotMev = True, dotRelayURL = []\<rparr> \<and>
   dotRelayURL \<lparr>dotMev = True, dotRelayURL = []\<rparr> = [] \<and>
   lookupVar ''RELAY_URL''
     (env_base_tmpl (sampleT ''EC'') (sampleT ''CC'') (sampleT ''VL'')
        \<lparr>dotMev = True, dotRelayURL = []\<rparr>) =
     Some ''https://0xafa4c6985aa049fb79dd37010438cfebeb0f2bd42b115b89dd678dab0670c1de38da0c4e9138c9290a398ecd9a0b3110@builder-relay-goerli.flashbots.net'' \<and>
   lookupVar ''RELAY_URL''
     (env_base_tmpl (sampleT ''EC'') (sampleT ''CC'') (sampleT ''VL'')
        \<lparr>dotMev = True, dotRelayURL = []\<rparr>) \<noteq>
     Some (Join goerliDefaultRelayURLs '','')"
  by code_simp

section \<open>The JWT secret path\<close>

text \<open>
  Lines 222 to 231 leave a path that is given and is not absolute as it is: the branch of
  line 227 is taken for the absolute paths only.
\<close>

lemma jwtSecret_relative:
  "jwtPath f \<noteq> [] \<Longrightarrow> \<not> IsAbs env (jwtPath f) \<Longrightarrow> jwtSecret env f = (Inr f, [])"
  by (simp add: jwtSecret_def)

text \<open>
  C3. A JWT secret path that the user gives and that is not absolute is never silently
  accepted: the run is to fail on it before anything is merged or written. The code does
  not do so. The path \<^verbatim>\<open>jwt.hex\<close> is given and is not absolute; the command returns no
  error, and the scripts are generated with that path as it is. Line 227 stands under the
  comment \<^verbatim>\<open>Ensure jwtPath is absolute\<close> and tests \<^verbatim>\<open>filepath.IsAbs(jwtPath)\<close> where the
  negation is meant, so \<^verbatim>\<open>filepath.Abs\<close> is called for the paths that are absolute
  already and for no other.
\<close>

theorem relative_jwt_path_accepted:
  "jwtPath ((defaultFlags ''/d'')\<lparr>jwtPath := ''jwt.hex'', y := True\<rparr>) = ''jwt.hex'' \<and>
   \<not> IsAbs quietEnv ''jwt.hex'' \<and>
   CliCmd 1 quietEnv ((defaultFlags ''/d'')\<lparr>jwtPath := ''jwt.hex'', y := True\<rparr>) =
     Some (RunOK,
           dependenciesTrace @
           generationTrace (someGenerationData\<lparr>JWTSecretPath := ''jwt.hex''\<rparr>) @
           validatorTrace)"
  by code_simp

section \<open>Errors of the pre-run\<close>

text \<open>
  C4, amended. For every run where the fee recipient given is not empty and is malformed,
  the command fails in the pre-run validation, before \<^verbatim>\<open>Run\<close> is entered: nothing is
  generated and no file is written. The error is \<^verbatim>\<open>InvalidFeeRecipientError\<close> when the
  run-clients flag and the network pass their checks, which come first; otherwise it is
  the error of the first of those checks that fails.
\<close>

theorem malformed_fee_recipient_fatal:
  assumes "feeRecipient f \<noteq> []" and "\<not> IsAddress env (feeRecipient f)"
  shows "CliCmd fuel env f =
           Some (PreRunFatal
                   (case runClientsFlag (services f) of
                      Inl err \<Rightarrow> err
                    | Inr svcs \<Rightarrow>
                        (case SupportedNetworks env of
                           Inl err \<Rightarrow> NetworkValidationFailedError err
                         | Inr networks \<Rightarrow>
                             if network f \<in> set networks then InvalidFeeRecipientError
                             else UnknownNetworkError (network f))), [])"
  using assms
  by (intro CliCmd_fatal) (simp add: preRun_error split: sum.split)

theorem malformed_fee_recipient_fatal_witness:
  "feeRecipient ((defaultFlags ''/d'')\<lparr>feeRecipient := ''0x12''\<rparr>) \<noteq> [] \<and>
   \<not> IsAddress quietEnv ''0x12'' \<and>
   CliCmd 1 quietEnv ((defaultFlags ''/d'')\<lparr>feeRecipient := ''0x12''\<rparr>) =
     Some (PreRunFatal InvalidFeeRecipientError, [])"
proof -
  let ?f = "(defaultFlags ''/d'')\<lparr>feeRecipient := ''0x12''\<rparr>"
  have 1: "feeRecipient ?f \<noteq> []" by simp
  have 2: "\<not> IsAddress quietEnv (feeRecipient ?f)" by code_simp
  have 3: "(case runClientsFlag (services ?f) of
              Inl err \<Rightarrow> err
            | Inr svcs \<Rightarrow>
                (case SupportedNetworks quietEnv of
                   Inl err \<Rightarrow> NetworkValidationFailedError err
                 | Inr networks \<Rightarrow>
                     if network ?f \<in> set networks then InvalidFeeRecipientError
                     else UnknownNetworkError (network ?f))) = InvalidFeeRecipientError"
    by code_simp
  have "CliCmd 1 quietEnv ?f = Some (PreRunFatal InvalidFeeRecipientError, [])"
    using malformed_fee_recipient_fatal [OF 1 2, of 1] by (simp only: 3)
  with 1 2 show ?thesis by simp
qed

text \<open>
  C4 as stated fails. The fee recipient \<^verbatim>\<open>0x12\<close> is malformed and the network
  \<^verbatim>\<open>foo\<close> is unknown: the network is checked first (line 140), and the error is
  \<^verbatim>\<open>UnknownNetworkError\<close>.
\<close>

theorem malformed_fee_recipient_counterexample:
  "feeRecipient ((defaultFlags ''/d'')\<lparr>feeRecipient := ''0x12'', network := ''foo''\<rparr>) \<noteq> [] \<and>
   \<not> IsAddress quietEnv ''0x12'' \<and>
   CliCmd 1 quietEnv ((defaultFlags ''/d'')\<lparr>feeRecipient := ''0x12'', network := ''foo''\<rparr>) =
     Some (PreRunFatal (UnknownNetworkError ''foo''), [])"
  by code_simp

text \<open>
  C8, amended. For every network that is not among the supported networks, the command
  fails in the pre-run validation, before \<^verbatim>\<open>Run\<close> is entered: no client is resolved,
  nothing is generated and no file is written. The error is \<^verbatim>\<open>UnknownNetworkError\<close>
  naming the network when the run-clients flag passes its check, which comes first;
  otherwise it is the error of that check.
\<close>

theorem unknown_network_fatal:
  assumes "SupportedNetworks env = Inr networks" and "network f \<notin> set networks"
  shows "CliCmd fuel env f =
           Some (PreRunFatal
                   (case runClientsFlag (services f) of
                      Inl err \<Rightarrow> err
                    | Inr svcs \<Rightarrow> UnknownNetworkError (network f)), [])"
  using assms
  by (intro CliCmd_fatal) (simp add: preRun_error split: sum.split)

theorem unknown_network_fatal_witness:
  "SupportedNetworks quietEnv = Inr [''mainnet'', ''goerli'', ''sepolia''] \<and>
   ''foo'' \<notin> set [''mainnet'', ''goerli'', ''sepolia''] \<and>
   CliCmd 1 quietEnv ((defaultFlags ''/d'')\<lparr>network := ''foo''\<rparr>) =
     Some (PreRunFatal (UnknownNetworkError ''foo''), [])"
proof -
  let ?f = "(defaultFlags ''/d'')\<lparr>network := ''foo''\<rparr>"
  have 1: "SupportedNetworks quietEnv = Inr [''mainnet'', ''goerli'', ''sepolia'']" by code_simp
  have 2: "network ?f \<notin> set [''mainnet'', ''goerli'', ''sepolia'']" by code_simp
  have 3: "(case runClientsFlag (services ?f) of
              Inl err \<Rightarrow> err
            | Inr svcs \<Rightarrow> UnknownNetworkError (network ?f)) = UnknownNetworkError ''foo''"
    by code_simp
  have "CliCmd 1 quietEnv ?f = Some (PreRunFatal (UnknownNetworkError ''foo''), [])"
    using unknown_network_fatal [OF 1 2, of 1] by (simp only: 3)
  with 1 2 show ?thesis by simp
qed

text \<open>
  C8 as stated fails. The network \<^verbatim>\<open>foo\<close> is unknown and the run-clients flag is
  \<^verbatim>\<open>all,none\<close>: the flag is checked first (line 109), and the error is
  \<^verbatim>\<open>RunClientsFlagAmbiguousError\<close>.
\<close>

theorem unknown_network_counterexample:
  "SupportedNetworks quietEnv = Inr [''mainnet'', ''goerli'', ''sepolia''] \<and>
   ''foo'' \<notin> set [''mainnet'', ''goerli'', ''sepolia''] \<and>
   CliCmd 1 quietEnv ((defaultFlags ''/d'')\<lparr>network := ''foo'', services := [''all'', ''none'']\<rparr>) =
     Some (PreRunFatal (RunClientsFlagAmbiguousError [''all'', ''none'']), [])"
  by code_simp

section \<open>The run-clients flag\<close>

lemma startServices_none:
  "services f = [] \<Longrightarrow> startServices env f cc res = ([], [Log Info HappyStaking2])"
  by (simp add: startServices_def)

lemma run_no_services:
  assumes "runCliCmd fuel env f = Some r" and "services f = []"
  shows "(\<forall>ev \<in> set (snd r). \<not> startsContainers ev) \<and>
         (\<forall>res. EvCleanGenerated res \<in> set (snd r) \<and> CleanGenerated env res = None \<longrightarrow>
            fst r = [] \<and>
            (\<exists>pre gd. snd r = pre @
               [EvGenerateScripts gd, EvCleanGenerated res,
                Log Info (CreatedFile (EnvFilePath res)), EvPrintFileContent (EnvFilePath res),
                Log Info (CreatedFile (DockerComposePath res)),
                EvPrintFileContent (DockerComposePath res),
                Log Info HappyStaking2]))"
proof -
  from runCliCmd_cases [OF assms(1)] show ?thesis
  proof
    assume a: "fst r \<noteq> [] \<and> (\<forall>ev \<in> set (snd r). preparation ev)"
    then have "\<forall>ev \<in> set (snd r). \<not> startsContainers ev"
      using preparation_not_started by blast
    moreover have "EvCleanGenerated res \<notin> set (snd r)" for res
      using a by fastforce
    ultimately show ?thesis by blast
  next
    assume "\<exists>pre p a cc. (\<forall>ev \<in> set pre. preparation ev) \<and>
              fst (jwtSecret env f) = Inr (f\<lparr>jwtPath := p\<rparr>) \<and>
              r = emit pre (generateScripts env (f\<lparr>jwtPath := p, feeRecipient := a\<rparr>) cc)"
    then obtain pre p a cc where
      pre: "\<forall>ev \<in> set pre. preparation ev" and
      r: "r = emit pre (generateScripts env (f\<lparr>jwtPath := p, feeRecipient := a\<rparr>) cc)"
      by blast
    let ?f = "f\<lparr>jwtPath := p, feeRecipient := a\<rparr>"
    let ?gd = "generationData env ?f (selection ?f cc)"
    have s: "services ?f = []" using assms(2) by simp
    have nopre: "\<not> startsContainers ev" if "ev \<in> set pre" for ev
      using that pre preparation_not_started by blast
    have noclean: "EvCleanGenerated res \<notin> set pre" for res
      using pre by fastforce
    from generateScripts_cases [of ?gd env ?f cc, OF refl] show ?thesis
    proof (elim disjE exE conjE)
      fix err
      assume g: "generateScripts env ?f cc = ([err], [EvGenerateScripts ?gd])"
      have "snd r = pre @ [EvGenerateScripts ?gd]" using r g by (simp add: emit_def)
      then show ?thesis using nopre noclean by auto
    next
      fix res' err
      assume c: "CleanGenerated env res' = Some err"
        and g: "generateScripts env ?f cc = ([err], [EvGenerateScripts ?gd, EvCleanGenerated res'])"
      have "snd r = pre @ [EvGenerateScripts ?gd, EvCleanGenerated res']"
        using r g by (simp add: emit_def)
      then show ?thesis using nopre noclean c by auto
    next
      fix res'
      assume g: "generateScripts env ?f cc =
              emit [EvGenerateScripts ?gd, EvCleanGenerated res',
                    Log Info (CreatedFile (EnvFilePath res')),
                    EvPrintFileContent (EnvFilePath res'),
                    Log Info (CreatedFile (DockerComposePath res')),
                    EvPrintFileContent (DockerComposePath res')]
                (startServices env ?f (selection ?f cc) res')"
      have tr: "snd r = pre @
                  [EvGenerateScripts ?gd, EvCleanGenerated res',
                   Log Info (CreatedFile (EnvFilePath res')),
                   EvPrintFileContent (EnvFilePath res'),
                   Log Info (CreatedFile (DockerComposePath res')),
                   EvPrintFileContent (DockerComposePath res'),
                   Log Info HappyStaking2]"
        and er: "fst r = []"
        using r g by (simp_all add: emit_def startServices_none [OF s])
      have 1: "\<forall>ev \<in> set (snd r). \<not> startsContainers ev"
        using tr nopre by auto
      have 2: "res = res'" if "EvCleanGenerated res \<in> set (snd r)" for res
        using that tr noclean by auto
      show ?thesis
      proof (intro conjI allI impI)
        show "\<forall>ev \<in> set (snd r). \<not> startsContainers ev" by (rule 1)
      next
        fix res
        assume "EvCleanGenerated res \<in> set (snd r) \<and> CleanGenerated env res = None"
        then have "res = res'" using 2 by blast
        then show "fst r = []" using er by simp
        show "\<exists>pre gd. snd r = pre @
               [EvGenerateScripts gd, EvCleanGenerated res,
                Log Info (CreatedFile (EnvFilePath res)), EvPrintFileContent (EnvFilePath res),
                Log Info (CreatedFile (DockerComposePath res)),
                EvPrintFileContent (DockerComposePath res),
                Log Info HappyStaking2]"
          using tr \<open>res = res'\<close> by blast
      qed
    qed
  qed
qed

lemma runClientsFlag_alone:
  "runClientsFlag [''all''] = Inr [execution, consensus, validator]"
  "runClientsFlag [''none''] = Inr []"
  by (simp_all add: runClientsFlag_def Contains_def)

text \<open>
  C9. The values \<^verbatim>\<open>all\<close> and \<^verbatim>\<open>none\<close> of the run-clients flag stand alone: when one
  of them comes with any other value, the command fails in the pre-run validation with
  \<^verbatim>\<open>RunClientsFlagAmbiguousError\<close>. \<^verbatim>\<open>all\<close> alone is expanded to execution, consensus
  and validator (lines 109 to 112; under \<^verbatim>\<open>--no-validator\<close> lines 128 to 133 then take
  the validator out), and \<^verbatim>\<open>none\<close> alone to the empty list. With an empty list,
  \<^verbatim>\<open>runCliCmd\<close> starts no container, and once the scripts are generated and cleaned it
  returns no error right after printing them.
\<close>

theorem run_clients_all_none:
  "((x = ''all'' \<or> x = ''none'') \<and> x \<in> set (services f) \<and> s \<in> set (services f) \<and> s \<noteq> x \<longrightarrow>
      CliCmd fuel env f =
        Some (PreRunFatal (RunClientsFlagAmbiguousError (services f)), [])) \<and>
   (services f = [''all''] \<longrightarrow>
      runClientsFlag (services f) = Inr [execution, consensus, validator] \<and>
      services (snd (preRunCliCmd env f)) =
        (if noValidator f then [execution, consensus] else [execution, consensus, validator])) \<and>
   (services f = [''none''] \<longrightarrow>
      runClientsFlag (services f) = Inr [] \<and> services (snd (preRunCliCmd env f)) = []) \<and>
   (services f = [] \<and> runCliCmd fuel env f = Some r \<longrightarrow>
      (\<forall>ev \<in> set (snd r). \<not> startsContainers ev) \<and>
      (\<forall>res. EvCleanGenerated res \<in> set (snd r) \<and> CleanGenerated env res = None \<longrightarrow>
         fst r = [] \<and>
         (\<exists>pre gd. snd r = pre @
            [EvGenerateScripts gd, EvCleanGenerated res,
             Log Info (CreatedFile (EnvFilePath res)), EvPrintFileContent (EnvFilePath res),
             Log Info (CreatedFile (DockerComposePath res)),
             EvPrintFileContent (DockerComposePath res),
             Log Info HappyStaking2])))"
proof (intro conjI impI)
  assume "(x = ''all'' \<or> x = ''none'') \<and> x \<in> set (services f) \<and> s \<in> set (services f) \<and> s \<noteq> x"
  then have "runClientsFlag (services f) = Inl (RunClientsFlagAmbiguousError (services f))"
    using runClientsFlag_ambiguous [of x "services f" s] by blast
  then have "fst (preRunCliCmd env f) = Some (RunClientsFlagAmbiguousError (services f))"
    by (simp add: preRun_error)
  then show "CliCmd fuel env f =
               Some (PreRunFatal (RunClientsFlagAmbiguousError (services f)), [])"
    by (rule CliCmd_fatal)
next
  assume a: "services f = [''all'']"
  then show "runClientsFlag (services f) = Inr [execution, consensus, validator]"
    by (simp add: runClientsFlag_alone)
  then show "services (snd (preRunCliCmd env f)) =
               (if noValidator f then [execution, consensus]
                else [execution, consensus, validator])"
    using preRun_services [of f "[execution, consensus, validator]" env]
    by (simp add: execution_def consensus_def validator_def)
next
  assume a: "services f = [''none'']"
  then show "runClientsFlag (services f) = Inr []"
    by (simp add: runClientsFlag_alone)
  then show "services (snd (preRunCliCmd env f)) = []"
    using preRun_services [of f "[]" env] by simp
next
  assume a: "services f = [] \<and> runCliCmd fuel env f = Some r"
  then have "runCliCmd fuel env f = Some r" and "services f = []" by simp_all
  from run_no_services [OF this]
  show "\<forall>ev \<in> set (snd r). \<not> startsContainers ev"
    and "\<forall>res. EvCleanGenerated res \<in> set (snd r) \<and> CleanGenerated env res = None \<longrightarrow>
         fst r = [] \<and>
         (\<exists>pre gd. snd r = pre @
            [EvGenerateScripts gd, EvCleanGenerated res,
             Log Info (CreatedFile (EnvFilePath res)), EvPrintFileContent (EnvFilePath res),
             Log Info (CreatedFile (DockerComposePath res)),
             EvPrintFileContent (DockerComposePath res),
             Log Info HappyStaking2])"
    by blast+
qed

theorem run_clients_all_none_witness:
  "CliCmd 1 quietEnv ((defaultFlags ''/d'')\<lparr>services := [''all'', ''execution'']\<rparr>) =
     Some (PreRunFatal (RunClientsFlagAmbiguousError [''all'', ''execution'']), []) \<and>
   services (snd (preRunCliCmd quietEnv ((defaultFlags ''/d'')\<lparr>services := [''all'']\<rparr>))) =
     [execution, consensus, validator] \<and>
   services (snd (preRunCliCmd quietEnv ((defaultFlags ''/d'')\<lparr>services := [''none'']\<rparr>))) = [] \<and>
   runCliCmd 1 quietEnv
     (snd (preRunCliCmd quietEnv ((defaultFlags ''/d'')\<lparr>services := [''none'']\<rparr>))) =
     Some ([], traceNone) \<and>
   EvCleanGenerated someResults \<in> set traceNone \<and>
   CleanGenerated quietEnv someResults = None"
proof -
  let ?amb = "(defaultFlags ''/d'')\<lparr>services := [''all'', ''execution'']\<rparr>"
  let ?all = "(defaultFlags ''/d'')\<lparr>services := [''all'']\<rparr>"
  let ?none = "(defaultFlags ''/d'')\<lparr>services := [''none'']\<rparr>"
  let ?run = "snd (preRunCliCmd quietEnv ?none)"
  have 1: "(''all'' = ''all'' \<or> ''all'' = ''none'') \<and> ''all'' \<in> set (services ?amb) \<and>
           ''execution'' \<in> set (services ?amb) \<and> ''execution'' \<noteq> ''all''"
    by simp
  have a: "CliCmd 1 quietEnv ?amb =
             Some (PreRunFatal (RunClientsFlagAmbiguousError [''all'', ''execution'']), [])"
    using run_clients_all_none
            [where x = "''all''" and s = "''execution''" and f = ?amb and fuel = 1
               and env = quietEnv, THEN conjunct1, THEN mp, OF 1]
    by simp
  have 2: "services ?all = [''all'']" and n: "\<not> noValidator ?all"
    by (simp_all add: defaultFlags_def)
  have b: "services (snd (preRunCliCmd quietEnv ?all)) = [execution, consensus, validator]"
    using run_clients_all_none
            [where f = ?all and env = quietEnv, THEN conjunct2, THEN conjunct1, THEN mp, OF 2]
          n
    by simp
  have 3: "services ?none = [''none'']" by simp
  have c: "services ?run = []"
    using run_clients_all_none
            [where f = ?none and env = quietEnv, THEN conjunct2, THEN conjunct2,
               THEN conjunct1, THEN mp, OF 3]
    by simp
  have r: "runCliCmd 1 quietEnv ?run = Some ([], traceNone)" by code_simp
  have e: "EvCleanGenerated someResults \<in> set traceNone"
    and g: "CleanGenerated quietEnv someResults = None"
    by code_simp+
  from c r have 4: "services ?run = [] \<and> runCliCmd 1 quietEnv ?run = Some ([], traceNone)"
    by simp
  note run_clients_all_none
         [where f = ?run and fuel = 1 and env = quietEnv and r = "([], traceNone)",
            THEN conjunct2, THEN conjunct2, THEN conjunct2, THEN mp, OF 4]
  with a b c r e g show ?thesis by blast
qed

section \<open>A timeout of the Sync Tracker\<close>

lemma poll_timeout:
  "poll env ticks i st0 = (TimedOut, st) \<Longrightarrow>
     \<not> (executionSynced st0 \<and> consensusSynced st0) \<Longrightarrow>
     \<not> (executionSynced st \<and> consensusSynced st)"
proof (induction ticks arbitrary: i st0)
  case 0
  then show ?case by simp
next
  case (Suc ticks)
  let ?st' = "askConsensus env i (askExecution env i st0)"
  show ?case
  proof (cases "executionSynced ?st' \<and> consensusSynced ?st'")
    case True
    with Suc.prems(1) show ?thesis by (simp add: Let_def)
  next
    case False
    with Suc.prems(1) have "poll env ticks (Suc i) ?st' = (TimedOut, st)"
      by (simp add: Let_def)
    from Suc.IH [OF this False] show ?thesis .
  qed
qed

lemma syncTracker_timeout:
  "syncTracker env a b = (TimedOut, st) \<Longrightarrow> \<not> (executionSynced st \<and> consensusSynced st)"
  by (auto simp: syncTracker_def Let_def split: if_splits dest: poll_timeout)

lemma trackSync_timeout:
  "trackSync env a b = (e, tr) \<Longrightarrow> EvTrackSync TimedOut st \<in> set tr \<Longrightarrow>
     e = None \<and> Log Warn SyncTimeoutWarning \<in> set tr \<and>
     \<not> (executionSynced st \<and> consensusSynced st)"
  by (auto simp: trackSync_def split: prod.splits track_state.splits dest: syncTracker_timeout)

lemma startValidator_timeout:
  assumes "EvTrackSync TimedOut st \<in> set (snd (startValidator env f res))"
  shows "\<not> (executionSynced st \<and> consensusSynced st) \<and>
         Log Warn SyncTimeoutWarning \<in> set (snd (startValidator env f res)) \<and>
         fst (startValidator env f res) =
           (case (if run f then runAndShowContainers env [validator]
                  else RunValidatorOrExit env) of
              None \<Rightarrow> [] | Some err \<Rightarrow> [err])"
proof (cases "trackSync env (ELPort res) (CLPort res)")
  case (Pair e ttr)
  have n: "\<not> noValidator f" and c: "\<not> Contains (services f) validator"
    using assms by (auto simp: startValidator_def emit_def split: if_splits)
  have "EvTrackSync TimedOut st \<in> set ttr"
    using assms n c Pair
    by (auto simp: startValidator_def emit_def failed_def split: if_splits option.splits)
  from trackSync_timeout [OF Pair this] have e: "e = None"
    and w: "Log Warn SyncTimeoutWarning \<in> set ttr"
    and u: "\<not> (executionSynced st \<and> consensusSynced st)" by simp_all
  have "Log Warn SyncTimeoutWarning \<in> set (snd (startValidator env f res)) \<and>
         fst (startValidator env f res) =
           (case (if run f then runAndShowContainers env [validator]
                  else RunValidatorOrExit env) of
              None \<Rightarrow> [] | Some err \<Rightarrow> [err])"
    using n c Pair e w
    by (auto simp: startValidator_def emit_def failed_def split: option.splits)
  with u show ?thesis by simp
qed

lemma startServices_track:
  assumes "EvTrackSync s st \<in> set (snd (startServices env f cc res))"
  shows "EvTrackSync s st \<in> set (snd (startValidator env f res)) \<and>
         fst (startServices env f cc res) = fst (startValidator env f res) \<and>
         set (snd (startValidator env f res)) \<subseteq> set (snd (startServices env f cc res))"
  using assms
  by (auto simp: startServices_def emit_def failed_def split: if_splits option.splits)

lemma preparation_not_track: "preparation ev \<Longrightarrow> ev \<noteq> EvTrackSync s st"
  by (cases ev) simp_all

lemma generateScripts_timeout:
  assumes "EvTrackSync TimedOut st \<in> set (snd (generateScripts env f cc))"
  shows "\<not> (executionSynced st \<and> consensusSynced st) \<and>
         (\<exists>gd. EvGenerateScripts gd \<in> set (snd (generateScripts env f cc))) \<and>
         (\<exists>res. EvCleanGenerated res \<in> set (snd (generateScripts env f cc)) \<and>
                CleanGenerated env res = None) \<and>
         Log Warn SyncTimeoutWarning \<in> set (snd (generateScripts env f cc)) \<and>
         fst (generateScripts env f cc) =
           (case (if run f then runAndShowContainers env [validator]
                  else RunValidatorOrExit env) of
              None \<Rightarrow> [] | Some err \<Rightarrow> [err])"
proof -
  let ?gd = "generationData env f (selection f cc)"
  from generateScripts_cases [of ?gd env f cc, OF refl] show ?thesis
  proof (elim disjE exE conjE)
    fix err
    assume "generateScripts env f cc = ([err], [EvGenerateScripts ?gd])"
    with assms show ?thesis by simp
  next
    fix res err
    assume "generateScripts env f cc = ([err], [EvGenerateScripts ?gd, EvCleanGenerated res])"
    with assms show ?thesis by simp
  next
    fix res
    assume c: "CleanGenerated env res = None"
      and g: "generateScripts env f cc =
              emit [EvGenerateScripts ?gd, EvCleanGenerated res,
                    Log Info (CreatedFile (EnvFilePath res)),
                    EvPrintFileContent (EnvFilePath res),
                    Log Info (CreatedFile (DockerComposePath res)),
                    EvPrintFileContent (DockerComposePath res)]
                (startServices env f (selection f cc) res)"
    from assms g have "EvTrackSync TimedOut st \<in> set (snd (startServices env f (selection f cc) res))"
      by (simp add: emit_def)
    from startServices_track [OF this] have
      v: "EvTrackSync TimedOut st \<in> set (snd (startValidator env f res))" and
      e: "fst (startServices env f (selection f cc) res) = fst (startValidator env f res)" and
      s: "set (snd (startValidator env f res)) \<subseteq> set (snd (startServices env f (selection f cc) res))"
      by simp_all
    from startValidator_timeout [OF v] have
      u: "\<not> (executionSynced st \<and> consensusSynced st)" and
      w: "Log Warn SyncTimeoutWarning \<in> set (snd (startValidator env f res))" and
      r: "fst (startValidator env f res) =
            (case (if run f then runAndShowContainers env [validator]
                   else RunValidatorOrExit env) of
               None \<Rightarrow> [] | Some err \<Rightarrow> [err])"
      by simp_all
    have 1: "EvGenerateScripts ?gd \<in> set (snd (generateScripts env f cc))"
      and 2: "EvCleanGenerated res \<in> set (snd (generateScripts env f cc))"
      using g by (simp_all add: emit_def)
    have 3: "Log Warn SyncTimeoutWarning \<in> set (snd (generateScripts env f cc))"
      using g w s by (auto simp: emit_def)
    have 4: "fst (generateScripts env f cc) =
            (case (if run f then runAndShowContainers env [validator]
                   else RunValidatorOrExit env) of
               None \<Rightarrow> [] | Some err \<Rightarrow> [err])"
      using g e r by (simp add: emit_def)
    from u 1 2 c 3 4 show ?thesis by blast
  qed
qed

lemma run_timeout:
  assumes "runCliCmd fuel env f = Some r" and "EvTrackSync TimedOut st \<in> set (snd r)"
  shows "\<not> (executionSynced st \<and> consensusSynced st) \<and>
         (\<exists>gd. EvGenerateScripts gd \<in> set (snd r)) \<and>
         (\<exists>res. EvCleanGenerated res \<in> set (snd r) \<and> CleanGenerated env res = None) \<and>
         Log Warn SyncTimeoutWarning \<in> set (snd r) \<and>
         fst r =
           (case (if run f then runAndShowContainers env [validator]
                  else RunValidatorOrExit env) of
              None \<Rightarrow> [] | Some err \<Rightarrow> [err])"
proof -
  from runCliCmd_cases [OF assms(1)] show ?thesis
  proof
    assume "fst r \<noteq> [] \<and> (\<forall>ev \<in> set (snd r). preparation ev)"
    with assms(2) have "preparation (EvTrackSync TimedOut st)" by blast
    then show ?thesis by simp
  next
    assume "\<exists>pre p a cc. (\<forall>ev \<in> set pre. preparation ev) \<and>
              fst (jwtSecret env f) = Inr (f\<lparr>jwtPath := p\<rparr>) \<and>
              r = emit pre (generateScripts env (f\<lparr>jwtPath := p, feeRecipient := a\<rparr>) cc)"
    then obtain pre p a cc where
      pre: "\<forall>ev \<in> set pre. preparation ev" and
      r: "r = emit pre (generateScripts env (f\<lparr>jwtPath := p, feeRecipient := a\<rparr>) cc)"
      by blast
    let ?f = "f\<lparr>jwtPath := p, feeRecipient := a\<rparr>"
    have "EvTrackSync TimedOut st \<notin> set pre"
      using pre preparation_not_track by blast
    with assms(2) r have "EvTrackSync TimedOut st \<in> set (snd (generateScripts env ?f cc))"
      by (simp add: emit_def)
    from generateScripts_timeout [OF this] obtain gd res where
      u: "\<not> (executionSynced st \<and> consensusSynced st)" and
      1: "EvGenerateScripts gd \<in> set (snd (generateScripts env ?f cc))" and
      2: "EvCleanGenerated res \<in> set (snd (generateScripts env ?f cc))" and
      c: "CleanGenerated env res = None" and
      3: "Log Warn SyncTimeoutWarning \<in> set (snd (generateScripts env ?f cc))" and
      4: "fst (generateScripts env ?f cc) =
            (case (if run ?f then runAndShowContainers env [validator]
                   else RunValidatorOrExit env) of
               None \<Rightarrow> [] | Some err \<Rightarrow> [err])"
      by blast
    have s: "set (snd (generateScripts env ?f cc)) \<subseteq> set (snd r)"
      and e: "fst r = fst (generateScripts env ?f cc)"
      using r by (simp_all add: emit_def)
    have 5: "fst r =
           (case (if run f then runAndShowContainers env [validator]
                  else RunValidatorOrExit env) of
              None \<Rightarrow> [] | Some err \<Rightarrow> [err])"
      using e 4 by simp
    from 1 2 3 s have "EvGenerateScripts gd \<in> set (snd r)"
      and "EvCleanGenerated res \<in> set (snd r)"
      and "Log Warn SyncTimeoutWarning \<in> set (snd r)"
      by blast+
    with u c 5 show ?thesis by blast
  qed
qed

text \<open>
  C2, amended. For every run in which the Sync Tracker times out (the deadline passes
  with at least one endpoint not yet synced), the scripts have been generated and cleaned,
  and nothing undoes that; the timeout is a warning and no error. The command goes on to
  start the validator (lines 322 to 330), and it succeeds exactly when that start succeeds:
  its only possible error is the error of that start.
\<close>

theorem sync_timeout_not_fatal:
  assumes "CliCmd fuel env f = Some (out, tr)" and "EvTrackSync TimedOut st \<in> set tr"
  shows "\<not> (executionSynced st \<and> consensusSynced st) \<and>
         (\<exists>gd. EvGenerateScripts gd \<in> set tr) \<and>
         (\<exists>res. EvCleanGenerated res \<in> set tr \<and> CleanGenerated env res = None) \<and>
         Log Warn SyncTimeoutWarning \<in> set tr \<and>
         out =
           (case (if run f \<or> y f then runAndShowContainers env [validator]
                  else RunValidatorOrExit env) of
              None \<Rightarrow> RunOK | Some err \<Rightarrow> RunErrors [err])"
proof -
  from CliCmd_run [OF assms] obtain r where
    r: "runCliCmd fuel env (snd (preRunCliCmd env f)) = Some r" and tr: "tr = snd r" and
    out: "out = (if length (fst r) > 0 then RunErrors (fst r) else RunOK)"
    by blast
  from assms(2) tr have "EvTrackSync TimedOut st \<in> set (snd r)" by simp
  from run_timeout [OF r this] have
    u: "\<not> (executionSynced st \<and> consensusSynced st)" and
    1: "\<exists>gd. EvGenerateScripts gd \<in> set (snd r)" and
    2: "\<exists>res. EvCleanGenerated res \<in> set (snd r) \<and> CleanGenerated env res = None" and
    3: "Log Warn SyncTimeoutWarning \<in> set (snd r)" and
    4: "fst r =
          (case (if run (snd (preRunCliCmd env f)) then runAndShowContainers env [validator]
                 else RunValidatorOrExit env) of
             None \<Rightarrow> [] | Some err \<Rightarrow> [err])"
    by simp_all
  have "out =
           (case (if run f \<or> y f then runAndShowContainers env [validator]
                  else RunValidatorOrExit env) of
              None \<Rightarrow> RunOK | Some err \<Rightarrow> RunErrors [err])"
    using out 4 by (simp add: preRun_keeps split: option.splits)
  with u 1 2 3 tr show ?thesis by simp
qed

theorem sync_timeout_not_fatal_witness:
  "CliCmd 1 slowEnv ((defaultFlags ''/d'')\<lparr>y := True\<rparr>) =
     Some (RunOK, timeoutTrace @ [Log Info HappyStaking]) \<and>
   EvTrackSync TimedOut \<lparr>executionSynced = False, consensusSynced = True, lastError = None\<rparr>
     \<in> set (timeoutTrace @ [Log Info HappyStaking]) \<and>
   Log Warn SyncTimeoutWarning \<in> set (timeoutTrace @ [Log Info HappyStaking]) \<and>
   runAndShowContainers slowEnv [validator] = None"
proof -
  let ?f = "(defaultFlags ''/d'')\<lparr>y := True\<rparr>"
  let ?tr = "timeoutTrace @ [Log Info HappyStaking]"
  have 1: "CliCmd 1 slowEnv ?f = Some (RunOK, ?tr)" by code_simp
  have 2: "EvTrackSync TimedOut
             \<lparr>executionSynced = False, consensusSynced = True, lastError = None\<rparr> \<in> set ?tr"
    by code_simp
  have 3: "runAndShowContainers slowEnv [validator] = None" by code_simp
  from sync_timeout_not_fatal [OF 1 2] 1 2 3 show ?thesis by blast
qed

text \<open>
  C2 as stated fails. The tracker times out and the validator container then fails to
  start (line 323): the command returns that error, and does not succeed.
\<close>

theorem sync_timeout_counterexample:
  "CliCmd 1 brokenValidatorEnv ((defaultFlags ''/d'')\<lparr>y := True\<rparr>) =
     Some (RunErrors [External ''docker''], timeoutTrace) \<and>
   EvTrackSync TimedOut \<lparr>executionSynced = False, consensusSynced = True, lastError = None\<rparr>
     \<in> set timeoutTrace \<and>
   EvCleanGenerated someResults \<in> set timeoutTrace \<and>
   CleanGenerated brokenValidatorEnv someResults = None"
  by code_simp

end
